theory Spec2Isabelle
  imports Main "HOL-Library.Word"
begin

section \<open>Buffers, big numbers and errors\<close>

text \<open>
  The handler \<^verbatim>\<open>handleEventsSequencerBatchAppended\<close> of
  \<^verbatim>\<open>src/services/l1-ingestion/handlers/sequencer-batch-appended.ts\<close> is embedded function by
  function. A JavaScript exception is a value \<open>Inl e\<close> of the result type \<open>error + 'a\<close>;
  a Node \<^verbatim>\<open>Buffer\<close> is a list of bytes; a JavaScript number that counts something and an
  unsigned \<^verbatim>\<open>BigNumber\<close> are natural numbers, with the points where the library refuses a
  value (more than 53 bits, an empty byte string) written out as errors.
\<close>

type_synonym byte = "8 word"
type_synonym buffer = "byte list"

datatype error =
    InvalidBigNumber
  | NumericOverflow
  | BufferOutOfRange
  | NullDereference
  | UnknownTransactionType
  | MissingBatchSubmission
  | LibraryFault string

definition bindE :: "error + 'a \<Rightarrow> ('a \<Rightarrow> error + 'b) \<Rightarrow> error + 'b" where
  "bindE m f = (case m of Inl e \<Rightarrow> Inl e | Inr x \<Rightarrow> f x)"

text \<open>
  \<^verbatim>\<open>Buffer.prototype.slice(start, end)\<close> for non-negative arguments: both ends are clamped to
  the length of the buffer, and an end that is not after the start gives the empty buffer.
  It never throws.
\<close>

definition buffer_slice :: "buffer \<Rightarrow> nat \<Rightarrow> nat \<Rightarrow> buffer" where
  "buffer_slice buf start end =
     (let s = min start (length buf); e = min end (length buf)
      in if e \<le> s then [] else take (e - s) (drop s buf))"

text \<open>
  \<^verbatim>\<open>BigNumber.from(bytes)\<close> of ethers: the bytes are written as a hexadecimal string and
  read as an unsigned big-endian number; the empty byte string gives \<^verbatim>\<open>"0x"\<close>, which is
  refused as an invalid BigNumber string.
\<close>

definition BigNumber_from_buffer :: "buffer \<Rightarrow> error + nat" where
  "BigNumber_from_buffer b =
     (if b = [] then Inl InvalidBigNumber
      else Inr (foldl (\<lambda>acc x. acc * 256 + unat x) 0 b))"

text \<open>
  \<^verbatim>\<open>BigNumber.from(n)\<close> for a JavaScript number refuses values from \<open>2^53 - 1\<close> on;
  \<^verbatim>\<open>toNumber()\<close> refuses values of more than 53 bits.
\<close>

definition BigNumber_from_number :: "nat \<Rightarrow> error + nat" where
  "BigNumber_from_number n = (if 2 ^ 53 - 1 \<le> n then Inl NumericOverflow else Inr n)"

definition toNumber :: "nat \<Rightarrow> error + nat" where
  "toNumber n = (if n < 2 ^ 53 then Inr n else Inl NumericOverflow)"

text \<open>\<^verbatim>\<open>buf.readUInt8()\<close> reads the byte at offset 0 and throws on an empty buffer.\<close>

definition readUInt8 :: "buffer \<Rightarrow> error + nat" where
  "readUInt8 buf = (case buf of [] \<Rightarrow> Inl BufferOutOfRange | x # _ \<Rightarrow> Inr (unat x))"

text \<open>\<^verbatim>\<open>buf.toString('hex')\<close>: two lower-case hexadecimal digits per byte.\<close>

definition hex_digit :: "nat \<Rightarrow> char" where
  "hex_digit n = ''0123456789abcdef'' ! (n mod 16)"

definition buffer_toString_hex :: "buffer \<Rightarrow> string" where
  "buffer_toString_hex buf =
     concat (map (\<lambda>x. [hex_digit (unat x div 16), hex_digit (unat x mod 16)]) buf)"

section \<open>Data model\<close>

text \<open>
  Modelled from the spec: the declaration of \<^verbatim>\<open>DecodedSequencerBatchTransaction\<close> lives in
  \<^verbatim>\<open>types\<close>, outside the embedded file. Section 3 of the specification gives its fields: nonce,
  gas price, gas limit, the destination address called target, the payload data, and a signature
  triple \<open>(r, s, v)\<close>. The handler reads \<^verbatim>\<open>decoded.sig.v\<close> and \<^verbatim>\<open>decoded.target\<close>.
\<close>

record signature =
  sig_r :: string
  sig_s :: string
  sig_v :: int

record decoded_tx =
  dec_sig :: signature
  dec_gasLimit :: int
  dec_gasPrice :: int
  dec_nonce :: int
  dec_target :: string
  dec_data :: string

text \<open>
  The record that \<^verbatim>\<open>validateBatchTransaction\<close> hands to \<^verbatim>\<open>serializeTransaction\<close>: the decoded
  fields with \<^verbatim>\<open>to\<close> added and \<^verbatim>\<open>sig\<close> and \<^verbatim>\<open>target\<close> deleted.
\<close>

record reformatted_tx =
  rtx_gasLimit :: int
  rtx_gasPrice :: int
  rtx_nonce :: int
  rtx_data :: string
  rtx_to :: string

text \<open>What \<^verbatim>\<open>parseTransaction\<close> returns, as far as the handler reads it: the optional sender.\<close>

record parsed_tx =
  ptx_from :: "string option"

text \<open>
  The functions and constants that the handler imports from \<^verbatim>\<open>@eth-optimism/core-utils\<close> and
  \<^verbatim>\<open>ethers\<close> are parameters of the model. A decoder may throw, and as a JavaScript function it
  may return \<^verbatim>\<open>null\<close>.
\<close>

record lib =
  TxType_EIP155 :: nat
  TxType_EthSign :: nat
  fromHexString :: "string \<Rightarrow> buffer"
  toHexString :: "buffer \<Rightarrow> string"
  eip155TxData_decode :: "string \<Rightarrow> error + decoded_tx option"
  ethSignTxData_decode :: "string \<Rightarrow> error + decoded_tx option"
  serializeTransaction :: "reformatted_tx \<Rightarrow> signature \<Rightarrow> error + string"
  keccak256 :: "string \<Rightarrow> string"
  recoverAddress :: "string \<Rightarrow> signature \<Rightarrow> error + string"
  parseTransaction :: "string \<Rightarrow> error + parsed_tx"

record SequencerBatchContext =
  numSequencedTransactions :: nat
  numSubsequentQueueTransactions :: nat
  ctx_timestamp :: nat
  ctx_blockNumber :: nat

record TransactionEntry =
  te_index :: nat
  te_batchIndex :: nat
  te_blockNumber :: nat
  te_timestamp :: nat
  te_gasLimit :: nat
  te_target :: string
  te_origin :: "string option"
  te_data :: string
  te_queueOrigin :: string
  te_type :: "string option"
  te_queueIndex :: "nat option"
  te_decoded :: "decoded_tx option"

record TransactionBatchEntry =
  tbe_index :: nat
  tbe_root :: string
  tbe_size :: nat
  tbe_prevTotalElements :: nat
  tbe_extraData :: string
  tbe_blockNumber :: nat
  tbe_timestamp :: nat
  tbe_submitter :: string
  tbe_l1TransactionHash :: string

text \<open>The batch-appended event, with the one decoded argument the handler reads.\<close>

record SequencerBatchAppended =
  ev_address :: string
  ev_transactionHash :: string
  ev_logIndex :: int
  ev_startingQueueIndex :: nat

text \<open>The companion event found by \<^verbatim>\<open>queryFilter\<close>, with its decoded arguments.\<close>

record TransactionBatchAppended =
  fe_transactionHash :: string
  fe_logIndex :: int
  fe_prevTotalElements :: nat
  fe_batchIndex :: nat
  fe_batchSize :: nat
  fe_batchRoot :: string
  fe_extraData :: string

record l1_transaction =
  l1tx_from :: string
  l1tx_hash :: string
  l1tx_data :: string

record l1_block =
  blk_number :: nat
  blk_timestamp :: nat

text \<open>
  The chain provider: the two lookups of the event itself and the event query of the contract
  attached at an address, over a range of block heights. Each may fail.
\<close>

record provider =
  getTransaction :: "SequencerBatchAppended \<Rightarrow> error + l1_transaction"
  getBlock :: "SequencerBatchAppended \<Rightarrow> error + l1_block"
  queryFilter :: "string \<Rightarrow> nat \<Rightarrow> nat \<Rightarrow> error + TransactionBatchAppended list"

record extra_data =
  ex_timestamp :: nat
  ex_blockNumber :: nat
  ex_submitter :: string
  ex_l1TransactionData :: string
  ex_l1TransactionHash :: string
  ex_gasLimit :: nat
  ex_prevTotalElements :: nat
  ex_batchIndex :: nat
  ex_batchSize :: nat
  ex_batchRoot :: string
  ex_batchExtraData :: string

record parsed_event =
  out_transactionBatchEntry :: TransactionBatchEntry
  out_transactionEntries :: "TransactionEntry list"

section \<open>getExtraData\<close>

definition is_batch_submission :: "SequencerBatchAppended \<Rightarrow> TransactionBatchAppended \<Rightarrow> bool" where
  "is_batch_submission event foundEvent \<longleftrightarrow>
     fe_transactionHash foundEvent = ev_transactionHash event \<and>
     fe_logIndex foundEvent = ev_logIndex event - 1"

definition getExtraData :: "provider \<Rightarrow> SequencerBatchAppended \<Rightarrow> error + extra_data" where
  "getExtraData l1RpcProvider event =
     bindE (getTransaction l1RpcProvider event) (\<lambda>l1Transaction.
     bindE (getBlock l1RpcProvider event) (\<lambda>eventBlock.
     bindE (queryFilter l1RpcProvider (ev_address event)
              (blk_number eventBlock) (blk_number eventBlock)) (\<lambda>found.
     case find (is_batch_submission event) found of
       None \<Rightarrow> Inl MissingBatchSubmission
     | Some batchSubmissionEvent \<Rightarrow>
         Inr \<lparr> ex_timestamp = blk_timestamp eventBlock,
               ex_blockNumber = blk_number eventBlock,
               ex_submitter = l1tx_from l1Transaction,
               ex_l1TransactionData = l1tx_data l1Transaction,
               ex_l1TransactionHash = l1tx_hash l1Transaction,
               ex_gasLimit = 8000000,
               ex_prevTotalElements = fe_prevTotalElements batchSubmissionEvent,
               ex_batchIndex = fe_batchIndex batchSubmissionEvent,
               ex_batchSize = fe_batchSize batchSubmissionEvent,
               ex_batchRoot = fe_batchRoot batchSubmissionEvent,
               ex_batchExtraData = fe_extraData batchSubmissionEvent \<rparr>)))"

section \<open>The calldata helpers\<close>

definition parseSequencerBatchContext :: "buffer \<Rightarrow> nat \<Rightarrow> error + SequencerBatchContext" where
  "parseSequencerBatchContext calldata offset =
     bindE (bindE (BigNumber_from_buffer (buffer_slice calldata offset (offset + 3))) toNumber) (\<lambda>nseq.
     bindE (bindE (BigNumber_from_buffer (buffer_slice calldata (offset + 3) (offset + 6))) toNumber) (\<lambda>nqueue.
     bindE (bindE (BigNumber_from_buffer (buffer_slice calldata (offset + 6) (offset + 11))) toNumber) (\<lambda>ts.
     bindE (bindE (BigNumber_from_buffer (buffer_slice calldata (offset + 11) (offset + 16))) toNumber) (\<lambda>bn.
     Inr \<lparr> numSequencedTransactions = nseq,
           numSubsequentQueueTransactions = nqueue,
           ctx_timestamp = ts,
           ctx_blockNumber = bn \<rparr>))))"

definition parseSequencerBatchTransaction :: "buffer \<Rightarrow> nat \<Rightarrow> error + buffer" where
  "parseSequencerBatchTransaction calldata offset =
     bindE (bindE (BigNumber_from_buffer (buffer_slice calldata offset (offset + 3))) toNumber)
       (\<lambda>transactionLength.
          Inr (buffer_slice calldata (offset + 3) (offset + 3 + transactionLength)))"

section \<open>validateBatchTransaction\<close>

definition validateBatchTransaction ::
  "lib \<Rightarrow> string option \<Rightarrow> decoded_tx option \<Rightarrow> error + bool" where
  "validateBatchTransaction L type decoded =
     (if type = None then Inr False
      else case decoded of
        None \<Rightarrow> Inl NullDereference
      | Some d \<Rightarrow>
          if sig_v (dec_sig d) \<noteq> 1 \<and> sig_v (dec_sig d) \<noteq> 0 then Inr False
          else if type = Some ''EIP155'' then
            (let reformattedTx = \<lparr> rtx_gasLimit = dec_gasLimit d,
                                   rtx_gasPrice = dec_gasPrice d,
                                   rtx_nonce = dec_nonce d,
                                   rtx_data = dec_data d,
                                   rtx_to = dec_target d \<rparr>;
                 reformattedSig = (dec_sig d)\<lparr> sig_v := sig_v (dec_sig d) + (35 + 2 * 10) \<rparr>
             in bindE (serializeTransaction L reformattedTx reformattedSig) (\<lambda>rawTx.
                let msgHash = keccak256 L rawTx
                in bindE (recoverAddress L msgHash reformattedSig) (\<lambda>recoveredAddress.
                   bindE (parseTransaction L rawTx) (\<lambda>parsedTx.
                   Inr (Some recoveredAddress = ptx_from parsedTx)))))
          else Inr False)"

section \<open>maybeDecodeSequencerBatchTransaction\<close>

text \<open>
  The two local variables of the function. The body of its \<^verbatim>\<open>try\<close> block either runs to the
  end or throws; in both cases the variables as they stand are what is returned, since the
  \<^verbatim>\<open>catch\<close> clause does nothing. \<open>try_block\<close> returns \<open>Inl\<close> with the error and the
  variables at the throw, \<open>Inr\<close> with the variables at the end.
\<close>

record decode_result =
  decoded :: "decoded_tx option"
  type :: "string option"

definition try_block :: "lib \<Rightarrow> buffer \<Rightarrow> (error \<times> decode_result) + decode_result" where
  "try_block L transaction =
     (case readUInt8 (buffer_slice transaction 0 1) of
        Inl e \<Rightarrow> Inl (e, \<lparr> decoded = None, type = None \<rparr>)
      | Inr txType \<Rightarrow>
          if txType = TxType_EIP155 L then
            (case eip155TxData_decode L (buffer_toString_hex transaction) of
               Inl e \<Rightarrow> Inl (e, \<lparr> decoded = None, type = Some ''EIP155'' \<rparr>)
             | Inr d \<Rightarrow>
                 (case validateBatchTransaction L (Some ''EIP155'') d of
                    Inl e \<Rightarrow> Inl (e, \<lparr> decoded = d, type = Some ''EIP155'' \<rparr>)
                  | Inr ok \<Rightarrow>
                      Inr \<lparr> decoded = (if \<not> ok then None else d), type = Some ''EIP155'' \<rparr>))
          else if txType = TxType_EthSign L then
            (case ethSignTxData_decode L (buffer_toString_hex transaction) of
               Inl e \<Rightarrow> Inl (e, \<lparr> decoded = None, type = Some ''ETH_SIGN'' \<rparr>)
             | Inr d \<Rightarrow>
                 (case validateBatchTransaction L (Some ''ETH_SIGN'') d of
                    Inl e \<Rightarrow> Inl (e, \<lparr> decoded = d, type = Some ''ETH_SIGN'' \<rparr>)
                  | Inr ok \<Rightarrow>
                      Inr \<lparr> decoded = (if \<not> ok then None else d), type = Some ''ETH_SIGN'' \<rparr>))
          else Inl (UnknownTransactionType, \<lparr> decoded = None, type = None \<rparr>))"

definition maybeDecodeSequencerBatchTransaction :: "lib \<Rightarrow> buffer \<Rightarrow> decode_result" where
  "maybeDecodeSequencerBatchTransaction L transaction =
     (case try_block L transaction of
        Inl (err, vars) \<Rightarrow> vars
      | Inr vars \<Rightarrow> vars)"

section \<open>parseEvent\<close>

text \<open>The local variables that the two nested loops of \<^verbatim>\<open>parseEvent\<close> update.\<close>

record parse_state =
  transactionEntries :: "TransactionEntry list"
  transactionIndex :: nat
  enqueuedCount :: nat
  nextTxPointer :: nat

text \<open>One round of the loop over a context's sequenced transactions (lines 107 to 134).\<close>

definition sequenced_step ::
  "lib \<Rightarrow> extra_data \<Rightarrow> buffer \<Rightarrow> SequencerBatchContext \<Rightarrow> parse_state \<Rightarrow> error + parse_state" where
  "sequenced_step L extraData calldata context st =
     bindE (parseSequencerBatchTransaction calldata (nextTxPointer st)) (\<lambda>sequencerTransaction.
     let r = maybeDecodeSequencerBatchTransaction L sequencerTransaction
     in bindE (bindE (BigNumber_from_number (transactionIndex st))
                 (\<lambda>ti. toNumber (ex_prevTotalElements extraData + ti))) (\<lambda>index.
        bindE (toNumber (ex_batchIndex extraData)) (\<lambda>batchIndex.
        bindE (bindE (BigNumber_from_number (ctx_blockNumber context)) toNumber) (\<lambda>blockNumber.
        bindE (bindE (BigNumber_from_number (ctx_timestamp context)) toNumber) (\<lambda>timestamp.
        bindE (bindE (BigNumber_from_number (ex_gasLimit extraData)) toNumber) (\<lambda>gasLimit.
        Inr (st\<lparr> transactionEntries := transactionEntries st @
                    [\<lparr> te_index = index,
                       te_batchIndex = batchIndex,
                       te_blockNumber = blockNumber,
                       te_timestamp = timestamp,
                       te_gasLimit = gasLimit,
                       te_target = ''0x4200000000000000000000000000000000000005'',
                       te_origin = None,
                       te_data = toHexString L sequencerTransaction,
                       te_queueOrigin = ''sequencer'',
                       te_type = type r,
                       te_queueIndex = None,
                       te_decoded = decoded r \<rparr>],
                 nextTxPointer := nextTxPointer st + (3 + length sequencerTransaction),
                 transactionIndex := transactionIndex st + 1 \<rparr>)))))))"

function sequenced_loop ::
  "lib \<Rightarrow> extra_data \<Rightarrow> buffer \<Rightarrow> SequencerBatchContext \<Rightarrow> nat \<Rightarrow> parse_state \<Rightarrow> error + parse_state" where
  "sequenced_loop L extraData calldata context j st =
     (if j < numSequencedTransactions context
      then bindE (sequenced_step L extraData calldata context st)
             (\<lambda>st'. sequenced_loop L extraData calldata context (j + 1) st')
      else Inr st)"
  by pat_completeness auto
termination
  by (relation "measure (\<lambda>(L, extraData, calldata, context, j, st).
        numSequencedTransactions context - j)") auto

text \<open>One round of the loop over a context's queue transactions (lines 138 to 165).\<close>

definition queue_step ::
  "SequencerBatchAppended \<Rightarrow> extra_data \<Rightarrow> parse_state \<Rightarrow> error + parse_state" where
  "queue_step event extraData st =
     bindE (BigNumber_from_number (enqueuedCount st)) (\<lambda>ec.
     let queueIndex = ev_startingQueueIndex event + ec
     in bindE (bindE (BigNumber_from_number (transactionIndex st))
                 (\<lambda>ti. toNumber (ex_prevTotalElements extraData + ti))) (\<lambda>index.
        bindE (toNumber (ex_batchIndex extraData)) (\<lambda>batchIndex.
        bindE (bindE (BigNumber_from_number 0) toNumber) (\<lambda>blockNumber.
        bindE (bindE (BigNumber_from_number 0) toNumber) (\<lambda>timestamp.
        bindE (bindE (BigNumber_from_number 0) toNumber) (\<lambda>gasLimit.
        bindE (toNumber queueIndex) (\<lambda>queueIndexNumber.
        Inr (st\<lparr> transactionEntries := transactionEntries st @
                    [\<lparr> te_index = index,
                       te_batchIndex = batchIndex,
                       te_blockNumber = blockNumber,
                       te_timestamp = timestamp,
                       te_gasLimit = gasLimit,
                       te_target = ''0x0000000000000000000000000000000000000000'',
                       te_origin = Some ''0x0000000000000000000000000000000000000000'',
                       te_data = ''0x'',
                       te_queueOrigin = ''l1'',
                       te_type = Some ''EIP155'',
                       te_queueIndex = Some queueIndexNumber,
                       te_decoded = None \<rparr>],
                 enqueuedCount := enqueuedCount st + 1,
                 transactionIndex := transactionIndex st + 1 \<rparr>))))))))"

function queue_loop ::
  "SequencerBatchAppended \<Rightarrow> extra_data \<Rightarrow> SequencerBatchContext \<Rightarrow> nat \<Rightarrow> parse_state \<Rightarrow> error + parse_state" where
  "queue_loop event extraData context j st =
     (if j < numSubsequentQueueTransactions context
      then bindE (queue_step event extraData st)
             (\<lambda>st'. queue_loop event extraData context (j + 1) st')
      else Inr st)"
  by pat_completeness auto
termination
  by (relation "measure (\<lambda>(event, extraData, context, j, st).
        numSubsequentQueueTransactions context - j)") auto

function context_loop ::
  "lib \<Rightarrow> SequencerBatchAppended \<Rightarrow> extra_data \<Rightarrow> buffer \<Rightarrow> nat \<Rightarrow> nat \<Rightarrow> parse_state \<Rightarrow> error + parse_state" where
  "context_loop L event extraData calldata numContexts i st =
     (if i < numContexts
      then (let contextPointer = 15 + 16 * i
            in bindE (parseSequencerBatchContext calldata contextPointer) (\<lambda>context.
               bindE (sequenced_loop L extraData calldata context 0 st) (\<lambda>st1.
               bindE (queue_loop event extraData context 0 st1) (\<lambda>st2.
               context_loop L event extraData calldata numContexts (i + 1) st2))))
      else Inr st)"
  by pat_completeness auto
termination
  by (relation "measure (\<lambda>(L, event, extraData, calldata, numContexts, i, st).
        numContexts - i)") auto

declare sequenced_loop.simps [simp del]
declare queue_loop.simps [simp del]
declare context_loop.simps [simp del]

definition parseEvent ::
  "lib \<Rightarrow> SequencerBatchAppended \<Rightarrow> extra_data \<Rightarrow> error + parsed_event" where
  "parseEvent L event extraData =
     (let calldata = fromHexString L (ex_l1TransactionData extraData)
      in bindE (bindE (BigNumber_from_buffer (buffer_slice calldata 12 15)) toNumber) (\<lambda>numContexts.
         bindE (context_loop L event extraData calldata numContexts 0
                  \<lparr> transactionEntries = [],
                    transactionIndex = 0,
                    enqueuedCount = 0,
                    nextTxPointer = 15 + 16 * numContexts \<rparr>) (\<lambda>st.
         bindE (toNumber (ex_batchIndex extraData)) (\<lambda>batchIndex.
         bindE (toNumber (ex_batchSize extraData)) (\<lambda>batchSize.
         bindE (toNumber (ex_prevTotalElements extraData)) (\<lambda>prevTotalElements.
         bindE (bindE (BigNumber_from_number (ex_blockNumber extraData)) toNumber) (\<lambda>blockNumber.
         bindE (bindE (BigNumber_from_number (ex_timestamp extraData)) toNumber) (\<lambda>timestamp.
         Inr \<lparr> out_transactionBatchEntry =
                 \<lparr> tbe_index = batchIndex,
                   tbe_root = ex_batchRoot extraData,
                   tbe_size = batchSize,
                   tbe_prevTotalElements = prevTotalElements,
                   tbe_extraData = ex_batchExtraData extraData,
                   tbe_blockNumber = blockNumber,
                   tbe_timestamp = timestamp,
                   tbe_submitter = ex_submitter extraData,
                   tbe_l1TransactionHash = ex_l1TransactionHash extraData \<rparr>,
               out_transactionEntries = transactionEntries st \<rparr>))))))))"

section \<open>storeEvent\<close>

text \<open>
  The entry store is outside the handler, which only calls three of its methods. The model keeps
  the calls made so far, in order; a store call is appended to that log.
\<close>

datatype db_call =
    putTransactionBatchEntries "TransactionBatchEntry list"
  | putTransactionEntries "TransactionEntry list"
  | putTransactionIndexByQueueIndex "nat option" nat

fun store_loop :: "TransactionEntry list \<Rightarrow> db_call list \<Rightarrow> db_call list" where
  "store_loop [] db = db"
| "store_loop (transactionEntry # rest) db =
     store_loop rest
       (if te_queueOrigin transactionEntry = ''l1''
        then db @ [putTransactionIndexByQueueIndex (te_queueIndex transactionEntry)
                     (te_index transactionEntry)]
        else db)"

definition storeEvent :: "parsed_event \<Rightarrow> db_call list \<Rightarrow> db_call list" where
  "storeEvent entry db =
     store_loop (out_transactionEntries entry)
       ((db @ [putTransactionBatchEntries [out_transactionBatchEntry entry]])
           @ [putTransactionEntries (out_transactionEntries entry)])"

text \<open>
  Modelled from the spec: the dispatcher that calls the three functions of the handler set is not
  part of the embedded file. Sections 2 and 7 of the specification give its control flow: the
  event is enriched by \<^verbatim>\<open>getExtraData\<close>, decoded by \<^verbatim>\<open>parseEvent\<close> and handed to \<^verbatim>\<open>storeEvent\<close>;
  a failure of a stage aborts the processing of that event, before any store call.
\<close>

definition handle_event ::
  "provider \<Rightarrow> lib \<Rightarrow> SequencerBatchAppended \<Rightarrow> db_call list \<Rightarrow> error option \<times> db_call list" where
  "handle_event l1RpcProvider L event db =
     (case getExtraData l1RpcProvider event of
        Inl e \<Rightarrow> (Some e, db)
      | Inr extraData \<Rightarrow>
          (case parseEvent L event extraData of
             Inl e \<Rightarrow> (Some e, db)
           | Inr entry \<Rightarrow> (None, storeEvent entry db)))"

section \<open>The specification's descriptions\<close>

text \<open>
  Definitions written from the words of the specification, to be compared with the functions
  embedded from the source. Section 4.4, step 4: the canonical unsigned transaction renames
  \<^verbatim>\<open>target\<close> to the destination field and leaves the signature out; the recovery signature adds
  \<open>35 + 2 * chainId\<close> to \<open>v\<close>.
\<close>

definition eip155_recovery_v :: "int \<Rightarrow> int \<Rightarrow> int" where
  "eip155_recovery_v chainId v = v + (35 + 2 * chainId)"

definition canonical_transaction :: "decoded_tx \<Rightarrow> reformatted_tx" where
  "canonical_transaction d =
     \<lparr> rtx_gasLimit = dec_gasLimit d, rtx_gasPrice = dec_gasPrice d, rtx_nonce = dec_nonce d,
       rtx_data = dec_data d, rtx_to = dec_target d \<rparr>"

definition adjusted_signature :: "decoded_tx \<Rightarrow> signature" where
  "adjusted_signature d =
     \<lparr> sig_r = sig_r (dec_sig d), sig_s = sig_s (dec_sig d),
       sig_v = eip155_recovery_v 10 (sig_v (dec_sig d)) \<rparr>"

text \<open>
  Section 4.1: what the metadata resolver returns on success, from the settlement transaction,
  its block and the companion event.
\<close>

definition extra_data_of ::
  "l1_transaction \<Rightarrow> l1_block \<Rightarrow> TransactionBatchAppended \<Rightarrow> extra_data" where
  "extra_data_of l1Transaction eventBlock companion =
     \<lparr> ex_timestamp = blk_timestamp eventBlock,
       ex_blockNumber = blk_number eventBlock,
       ex_submitter = l1tx_from l1Transaction,
       ex_l1TransactionData = l1tx_data l1Transaction,
       ex_l1TransactionHash = l1tx_hash l1Transaction,
       ex_gasLimit = 8000000,
       ex_prevTotalElements = fe_prevTotalElements companion,
       ex_batchIndex = fe_batchIndex companion,
       ex_batchSize = fe_batchSize companion,
       ex_batchRoot = fe_batchRoot companion,
       ex_batchExtraData = fe_extraData companion \<rparr>"

text \<open>
  Section 4.2, the calldata layout. \<open>be_uint\<close> is the value of a byte sequence read as a
  big-endian unsigned integer. \<open>uint_at payload a b\<close> is the integer that the bytes at offsets
  \<open>[a, b)\<close> of the payload hold; a payload that ends before \<open>b\<close> holds none.
\<close>

definition be_uint :: "buffer \<Rightarrow> nat" where
  "be_uint bs = (\<Sum>i<length bs. unat (bs ! i) * 256 ^ (length bs - 1 - i))"

definition uint_at :: "buffer \<Rightarrow> nat \<Rightarrow> nat \<Rightarrow> nat option" where
  "uint_at payload a b =
     (if b \<le> length payload then Some (be_uint (take (b - a) (drop a payload))) else None)"

text \<open>
  Bytes \<open>[12, 15)\<close> hold the number of contexts; context \<open>i\<close> is the 16-byte block at offset
  \<open>15 + 16 * i\<close> with its four fields at \<open>[0, 3)\<close>, \<open>[3, 6)\<close>, \<open>[6, 11)\<close> and \<open>[11, 16)\<close>.
\<close>

definition layout_numContexts :: "buffer \<Rightarrow> nat option" where
  "layout_numContexts payload = uint_at payload 12 15"

definition layout_context :: "buffer \<Rightarrow> nat \<Rightarrow> SequencerBatchContext option" where
  "layout_context payload i =
     (let block = 15 + 16 * i
      in Option.bind (uint_at payload (block + 0) (block + 3)) (\<lambda>nseq.
         Option.bind (uint_at payload (block + 3) (block + 6)) (\<lambda>nqueue.
         Option.bind (uint_at payload (block + 6) (block + 11)) (\<lambda>ts.
         Option.bind (uint_at payload (block + 11) (block + 16)) (\<lambda>bn.
         Some \<lparr> numSequencedTransactions = nseq,
                numSubsequentQueueTransactions = nqueue,
                ctx_timestamp = ts,
                ctx_blockNumber = bn \<rparr>)))))"

fun layout_context_list :: "buffer \<Rightarrow> nat \<Rightarrow> nat \<Rightarrow> SequencerBatchContext list option" where
  "layout_context_list payload i 0 = Some []"
| "layout_context_list payload i (Suc k) =
     Option.bind (layout_context payload i) (\<lambda>c.
     map_option (\<lambda>cs. c # cs) (layout_context_list payload (Suc i) k))"

definition layout_contexts :: "buffer \<Rightarrow> SequencerBatchContext list option" where
  "layout_contexts payload =
     Option.bind (layout_numContexts payload) (\<lambda>n. layout_context_list payload 0 n)"

text \<open>
  The transaction slices: each is a 3-byte big-endian length \<open>l\<close> followed by \<open>l\<close> raw bytes.
  \<open>layout_slices payload cursor k\<close> reads \<open>k\<close> of them one after the other, starting at
  \<open>cursor\<close>; a length that runs past the end of the payload is a decode error.
\<close>

fun layout_slices :: "buffer \<Rightarrow> nat \<Rightarrow> nat \<Rightarrow> buffer list option" where
  "layout_slices payload cursor 0 = Some []"
| "layout_slices payload cursor (Suc k) =
     Option.bind (uint_at payload cursor (cursor + 3)) (\<lambda>l.
     if cursor + 3 + l \<le> length payload
     then map_option (\<lambda>rest. take l (drop (cursor + 3) payload) # rest)
            (layout_slices payload (cursor + 3 + l) k)
     else None)"

definition total_sequenced :: "SequencerBatchContext list \<Rightarrow> nat" where
  "total_sequenced cs = sum_list (map numSequencedTransactions cs)"

definition total_queued :: "SequencerBatchContext list \<Rightarrow> nat" where
  "total_queued cs = sum_list (map numSubsequentQueueTransactions cs)"

definition total_elements :: "SequencerBatchContext list \<Rightarrow> nat" where
  "total_elements cs =
     sum_list (map (\<lambda>c. numSequencedTransactions c + numSubsequentQueueTransactions c) cs)"

text \<open>
  The decoded layout of a payload: its contexts, and the slices that start at offset
  \<open>15 + 16 * numContexts\<close>, one for each sequenced transaction of each context. The payload has
  no decoded layout when it ends before a byte that the layout declares.
\<close>

definition layout_decode :: "buffer \<Rightarrow> (SequencerBatchContext list \<times> buffer list) option" where
  "layout_decode payload =
     Option.bind (layout_numContexts payload) (\<lambda>n.
     Option.bind (layout_context_list payload 0 n) (\<lambda>cs.
     map_option (\<lambda>raws. (cs, raws))
       (layout_slices payload (15 + 16 * n) (total_sequenced cs))))"

text \<open>
  Section 4.5, the ordered entry assembler. A sequencer entry carries the attribution of its
  context and the decode result of its slice; a provisional entry carries the placeholder fields
  of section 3 and its queue index. Both take the offset of the entry within the batch.
\<close>

definition sequencer_entry ::
  "lib \<Rightarrow> extra_data \<Rightarrow> SequencerBatchContext \<Rightarrow> nat \<Rightarrow> buffer \<Rightarrow> TransactionEntry" where
  "sequencer_entry L extraData c localOffset raw =
     \<lparr> te_index = ex_prevTotalElements extraData + localOffset,
       te_batchIndex = ex_batchIndex extraData,
       te_blockNumber = ctx_blockNumber c,
       te_timestamp = ctx_timestamp c,
       te_gasLimit = ex_gasLimit extraData,
       te_target = ''0x4200000000000000000000000000000000000005'',
       te_origin = None,
       te_data = toHexString L raw,
       te_queueOrigin = ''sequencer'',
       te_type = type (maybeDecodeSequencerBatchTransaction L raw),
       te_queueIndex = None,
       te_decoded = decoded (maybeDecodeSequencerBatchTransaction L raw) \<rparr>"

definition provisional_entry :: "extra_data \<Rightarrow> nat \<Rightarrow> nat \<Rightarrow> TransactionEntry" where
  "provisional_entry extraData localOffset queueIndex =
     \<lparr> te_index = ex_prevTotalElements extraData + localOffset,
       te_batchIndex = ex_batchIndex extraData,
       te_blockNumber = 0,
       te_timestamp = 0,
       te_gasLimit = 0,
       te_target = ''0x0000000000000000000000000000000000000000'',
       te_origin = Some ''0x0000000000000000000000000000000000000000'',
       te_data = ''0x'',
       te_queueOrigin = ''l1'',
       te_type = Some ''EIP155'',
       te_queueIndex = Some queueIndex,
       te_decoded = None \<rparr>"

fun sequencer_entries ::
  "lib \<Rightarrow> extra_data \<Rightarrow> SequencerBatchContext \<Rightarrow> nat \<Rightarrow> buffer list \<Rightarrow> TransactionEntry list" where
  "sequencer_entries L extraData c localOffset [] = []"
| "sequencer_entries L extraData c localOffset (raw # raws) =
     sequencer_entry L extraData c localOffset raw
       # sequencer_entries L extraData c (Suc localOffset) raws"

fun provisional_entries :: "extra_data \<Rightarrow> nat \<Rightarrow> nat \<Rightarrow> nat \<Rightarrow> TransactionEntry list" where
  "provisional_entries extraData localOffset queueIndex 0 = []"
| "provisional_entries extraData localOffset queueIndex (Suc k) =
     provisional_entry extraData localOffset queueIndex
       # provisional_entries extraData (Suc localOffset) (Suc queueIndex) k"

text \<open>
  The assembler processes the contexts in order. For each it emits the context's sequenced
  entries, pulling that many slices, then its provisional queue entries; \<open>localOffset\<close> and
  \<open>enqueued\<close> are the two counters of section 4.5.
\<close>

fun assemble ::
  "lib \<Rightarrow> nat \<Rightarrow> extra_data \<Rightarrow> SequencerBatchContext list \<Rightarrow> nat \<Rightarrow> nat \<Rightarrow> buffer list
     \<Rightarrow> TransactionEntry list" where
  "assemble L startingQueueIndex extraData [] localOffset enqueued raws = []"
| "assemble L startingQueueIndex extraData (c # cs) localOffset enqueued raws =
     sequencer_entries L extraData c localOffset (take (numSequencedTransactions c) raws)
     @ provisional_entries extraData (localOffset + numSequencedTransactions c)
         (startingQueueIndex + enqueued) (numSubsequentQueueTransactions c)
     @ assemble L startingQueueIndex extraData cs
         (localOffset + numSequencedTransactions c + numSubsequentQueueTransactions c)
         (enqueued + numSubsequentQueueTransactions c)
         (drop (numSequencedTransactions c) raws)"

text \<open>
  Section 8, the order of the entries: for each context in order, its sequenced entries with the
  context's timestamp and block number, then its queued entries with zero placeholders.
\<close>

definition origin_plan :: "SequencerBatchContext list \<Rightarrow> (string \<times> nat \<times> nat) list" where
  "origin_plan cs =
     concat (map (\<lambda>c. replicate (numSequencedTransactions c)
                          (''sequencer'', ctx_timestamp c, ctx_blockNumber c)
                       @ replicate (numSubsequentQueueTransactions c) (''l1'', 0, 0)) cs)"

section \<open>Auxiliary definitions\<close>

text \<open>
  What the handler reads from a payload of any length. \<^verbatim>\<open>Buffer.slice\<close> gives the bytes that
  exist: \<open>bytes_at\<close> is that slice, and \<open>read_numContexts\<close> and \<open>read_context\<close> are the numbers
  that the handler makes of such slices.
\<close>

definition bytes_at :: "buffer \<Rightarrow> nat \<Rightarrow> nat \<Rightarrow> buffer" where
  "bytes_at cd a b = take (b - a) (drop a cd)"

definition read_numContexts :: "buffer \<Rightarrow> nat" where
  "read_numContexts cd = be_uint (bytes_at cd 12 15)"

definition read_context :: "buffer \<Rightarrow> nat \<Rightarrow> SequencerBatchContext" where
  "read_context cd i =
     \<lparr> numSequencedTransactions = be_uint (bytes_at cd (15 + 16 * i) (15 + 16 * i + 3)),
       numSubsequentQueueTransactions = be_uint (bytes_at cd (15 + 16 * i + 3) (15 + 16 * i + 6)),
       ctx_timestamp = be_uint (bytes_at cd (15 + 16 * i + 6) (15 + 16 * i + 11)),
       ctx_blockNumber = be_uint (bytes_at cd (15 + 16 * i + 11) (15 + 16 * i + 16)) \<rparr>"

definition read_contexts :: "buffer \<Rightarrow> SequencerBatchContext list" where
  "read_contexts cd = map (read_context cd) [0..<read_numContexts cd]"

text \<open>
  The cursor of \<^verbatim>\<open>parseEvent\<close> advances by the length of the slice it has read, which is
  shorter than the declared length when the payload ends early. \<open>cursor_slices\<close> and
  \<open>cursor_after\<close> follow that cursor; \<open>reads_ok\<close> says that every length prefix starts inside
  the payload; \<open>overruns\<close> says that the slice whose length prefix is at \<open>p\<close> declares more bytes
  than remain after the prefix.
\<close>

fun cursor_slices :: "buffer \<Rightarrow> nat \<Rightarrow> nat \<Rightarrow> buffer list" where
  "cursor_slices cd p 0 = []"
| "cursor_slices cd p (Suc k) =
     (let s = bytes_at cd (p + 3) (p + 3 + be_uint (bytes_at cd p (p + 3)))
      in s # cursor_slices cd (p + 3 + length s) k)"

fun cursor_after :: "buffer \<Rightarrow> nat \<Rightarrow> nat \<Rightarrow> nat" where
  "cursor_after cd p 0 = p"
| "cursor_after cd p (Suc k) =
     cursor_after cd
       (p + 3 + length (bytes_at cd (p + 3) (p + 3 + be_uint (bytes_at cd p (p + 3))))) k"

fun reads_ok :: "buffer \<Rightarrow> nat \<Rightarrow> nat \<Rightarrow> bool" where
  "reads_ok cd p 0 = True"
| "reads_ok cd p (Suc k) =
     (p < length cd \<and>
      reads_ok cd
        (p + 3 + length (bytes_at cd (p + 3) (p + 3 + be_uint (bytes_at cd p (p + 3))))) k)"

definition overruns :: "buffer \<Rightarrow> nat \<Rightarrow> bool" where
  "overruns cd p \<longleftrightarrow> length cd - (p + 3) < be_uint (bytes_at cd p (p + 3))"

text \<open>
  The handler turns every number into a JavaScript number: \<^verbatim>\<open>toNumber\<close> refuses a value of more
  than 53 bits and \<^verbatim>\<open>BigNumber.from\<close> a number from \<open>2^53 - 1\<close> on. \<open>numbers_fit\<close> says that the
  numbers of an event and its metadata, with the counters that a list of contexts makes the
  handler run through, stay below these bounds.
\<close>

definition numbers_fit ::
  "SequencerBatchAppended \<Rightarrow> extra_data \<Rightarrow> SequencerBatchContext list \<Rightarrow> bool" where
  "numbers_fit event extraData cs \<longleftrightarrow>
     ex_prevTotalElements extraData + total_elements cs < 2 ^ 53 \<and>
     ev_startingQueueIndex event + total_queued cs < 2 ^ 53 \<and>
     ex_batchIndex extraData < 2 ^ 53 \<and>
     ex_batchSize extraData < 2 ^ 53 \<and>
     ex_blockNumber extraData < 2 ^ 53 - 1 \<and>
     ex_timestamp extraData < 2 ^ 53 - 1 \<and>
     ex_gasLimit extraData < 2 ^ 53 - 1"

section \<open>Example data\<close>

text \<open>
  A library instance for the concrete evaluations below. Hexadecimal strings are decoded and
  encoded as \<^verbatim>\<open>fromHexString\<close> and \<^verbatim>\<open>toHexString\<close> of core-utils do; the decoders and the
  signature functions are small tables, enough to reach each branch of the handler.
\<close>

definition hex_value :: "char \<Rightarrow> nat option" where
  "hex_value c =
     (let n = (of_char c :: nat)
      in if 48 \<le> n \<and> n \<le> 57 then Some (n - 48)
         else if 97 \<le> n \<and> n \<le> 102 then Some (n - 87)
         else if 65 \<le> n \<and> n \<le> 70 then Some (n - 55)
         else None)"

fun hex_decode :: "string \<Rightarrow> buffer" where
  "hex_decode (a # b # rest) =
     (case (hex_value a, hex_value b) of
        (Some h, Some l) \<Rightarrow> of_nat (16 * h + l) # hex_decode rest
      | _ \<Rightarrow> [])"
| "hex_decode _ = []"

definition demo_tx :: "int \<Rightarrow> decoded_tx" where
  "demo_tx v = \<lparr> dec_sig = \<lparr> sig_r = ''0x01'', sig_s = ''0x02'', sig_v = v \<rparr>,
                 dec_gasLimit = 21000, dec_gasPrice = 0, dec_nonce = 7,
                 dec_target = ''0x4200000000000000000000000000000000000006'',
                 dec_data = ''0x'' \<rparr>"

definition demo_lib :: lib where
  "demo_lib = \<lparr>
     TxType_EIP155 = 0,
     TxType_EthSign = 1,
     fromHexString = (\<lambda>inp. if take 2 inp = ''0x'' then hex_decode (drop 2 inp)
                              else map (\<lambda>c. of_nat (of_char c)) inp),
     toHexString = (\<lambda>buf. ''0x'' @ buffer_toString_hex buf),
     eip155TxData_decode = (\<lambda>txData.
        if txData = ''00'' then Inr None
        else if txData = ''00ff'' then Inl (LibraryFault ''malformed'')
        else if txData = ''0002'' then Inr (Some (demo_tx 2))
        else Inr (Some (demo_tx 1))),
     ethSignTxData_decode = (\<lambda>txData.
        if txData = ''01'' then Inr None
        else if txData = ''01ff'' then Inl (LibraryFault ''malformed'')
        else Inr (Some (demo_tx 0))),
     serializeTransaction = (\<lambda>tx sig. Inr (''0xf8'' @ rtx_to tx)),
     keccak256 = (\<lambda>s. ''0xhash'' @ s),
     recoverAddress = (\<lambda>digest sig. Inr ''0x00000000000000000000000000000000000000aa''),
     parseTransaction = (\<lambda>raw. Inr \<lparr> ptx_from = Some ''0x00000000000000000000000000000000000000aa'' \<rparr>) \<rparr>"

definition demo_block_events :: "TransactionBatchAppended list" where
  "demo_block_events =
     [\<lparr> fe_transactionHash = ''0xaa'', fe_logIndex = 3, fe_prevTotalElements = 0,
         fe_batchIndex = 0, fe_batchSize = 2, fe_batchRoot = ''0xr0'', fe_extraData = ''0x'' \<rparr>,
      \<lparr> fe_transactionHash = ''0xbb'', fe_logIndex = 6, fe_prevTotalElements = 2,
         fe_batchIndex = 1, fe_batchSize = 3, fe_batchRoot = ''0xr1'', fe_extraData = ''0x'' \<rparr>]"

definition demo_provider :: provider where
  "demo_provider = \<lparr>
     getTransaction = (\<lambda>event.
        Inr \<lparr> l1tx_from = ''0x00000000000000000000000000000000000000f0'',
              l1tx_hash = ev_transactionHash event,
              l1tx_data = ''0x'' \<rparr>),
     getBlock = (\<lambda>event. Inr \<lparr> blk_number = 100, blk_timestamp = 1600000000 \<rparr>),
     queryFilter = (\<lambda>address fromBlock toBlock.
        if fromBlock = 100 \<and> toBlock = 100 then Inr demo_block_events
        else Inl (LibraryFault ''unexpected block range'')) \<rparr>"

definition demo_event :: "string \<Rightarrow> int \<Rightarrow> SequencerBatchAppended" where
  "demo_event h i = \<lparr> ev_address = ''0x00000000000000000000000000000000000000c7'',
                      ev_transactionHash = h, ev_logIndex = i, ev_startingQueueIndex = 3 \<rparr>"

text \<open>
  A payload with two contexts: the first has two sequenced transactions and one queue
  transaction, timestamp 100 and block number 5; the second has one sequenced and two queue
  transactions, timestamp 101 and block number 6. Its three slices are \<open>09 01\<close>, \<open>01 05\<close> and
  \<open>07\<close>.
\<close>

definition demo_calldata :: string where
  "demo_calldata = ''0x'' @ ''000000000000000000000000'' @ ''000002''
     @ ''000002'' @ ''000001'' @ ''0000000064'' @ ''0000000005''
     @ ''000001'' @ ''000002'' @ ''0000000065'' @ ''0000000006''
     @ ''000002'' @ ''0901'' @ ''000002'' @ ''0105'' @ ''000001'' @ ''07''"

definition demo_contexts :: "SequencerBatchContext list" where
  "demo_contexts =
     [\<lparr> numSequencedTransactions = 2, numSubsequentQueueTransactions = 1,
         ctx_timestamp = 100, ctx_blockNumber = 5 \<rparr>,
      \<lparr> numSequencedTransactions = 1, numSubsequentQueueTransactions = 2,
         ctx_timestamp = 101, ctx_blockNumber = 6 \<rparr>]"

definition demo_slices :: "buffer list" where
  "demo_slices = [[9, 1], [1, 5], [7]]"

text \<open>
  A payload with one context and one sequenced transaction whose slice declares 5 bytes where
  2 remain, and a payload whose only context block ends after the first byte of its block number.
\<close>

definition demo_truncated_calldata :: string where
  "demo_truncated_calldata = ''0x'' @ ''000000000000000000000000'' @ ''000001''
     @ ''000001'' @ ''000000'' @ ''0000000064'' @ ''0000000005''
     @ ''000005'' @ ''0907''"


text \<open>
  The first of these payloads with a context that declares two sequenced transactions: the slice
  that declares more bytes than remain is then not the last one to be read.
\<close>

definition demo_overrun_calldata :: string where
  "demo_overrun_calldata = ''0x'' @ ''000000000000000000000000'' @ ''000001''
     @ ''000002'' @ ''000000'' @ ''0000000064'' @ ''0000000005''
     @ ''000005'' @ ''0907''"

definition demo_extra :: "string \<Rightarrow> nat \<Rightarrow> extra_data" where
  "demo_extra calldata batchSize =
     \<lparr> ex_timestamp = 1600000000, ex_blockNumber = 100,
       ex_submitter = ''0x00000000000000000000000000000000000000f0'',
       ex_l1TransactionData = calldata, ex_l1TransactionHash = ''0xbb'',
       ex_gasLimit = 8000000, ex_prevTotalElements = 10, ex_batchIndex = 4,
       ex_batchSize = batchSize, ex_batchRoot = ''0xr1'', ex_batchExtraData = ''0x'' \<rparr>"

definition demo_sequencer_entry ::
  "nat \<Rightarrow> nat \<Rightarrow> nat \<Rightarrow> string \<Rightarrow> string option \<Rightarrow> TransactionEntry" where
  "demo_sequencer_entry index timestamp blockNumber hex tag =
     \<lparr> te_index = index, te_batchIndex = 4, te_blockNumber = blockNumber,
       te_timestamp = timestamp, te_gasLimit = 8000000,
       te_target = ''0x4200000000000000000000000000000000000005'',
       te_origin = None, te_data = hex, te_queueOrigin = ''sequencer'',
       te_type = tag, te_queueIndex = None, te_decoded = None \<rparr>"

definition demo_queue_entry :: "nat \<Rightarrow> nat \<Rightarrow> TransactionEntry" where
  "demo_queue_entry index queueIndex =
     \<lparr> te_index = index, te_batchIndex = 4, te_blockNumber = 0, te_timestamp = 0,
       te_gasLimit = 0, te_target = ''0x0000000000000000000000000000000000000000'',
       te_origin = Some ''0x0000000000000000000000000000000000000000'', te_data = ''0x'',
       te_queueOrigin = ''l1'', te_type = Some ''EIP155'', te_queueIndex = Some queueIndex,
       te_decoded = None \<rparr>"

definition demo_entries :: "TransactionEntry list" where
  "demo_entries =
     [demo_sequencer_entry 10 100 5 ''0x0901'' None,
      demo_sequencer_entry 11 100 5 ''0x0105'' (Some ''ETH_SIGN''),
      demo_queue_entry 12 3,
      demo_sequencer_entry 13 101 6 ''0x07'' None,
      demo_queue_entry 14 4,
      demo_queue_entry 15 5]"

definition demo_batch_entry :: "nat \<Rightarrow> TransactionBatchEntry" where
  "demo_batch_entry batchSize =
     \<lparr> tbe_index = 4, tbe_root = ''0xr1'', tbe_size = batchSize, tbe_prevTotalElements = 10,
       tbe_extraData = ''0x'', tbe_blockNumber = 100, tbe_timestamp = 1600000000,
       tbe_submitter = ''0x00000000000000000000000000000000000000f0'',
       tbe_l1TransactionHash = ''0xbb'' \<rparr>"






section \<open>Properties of the validator and the transaction decoder\<close>

lemma bindE_Inr_iff: "bindE m f = Inr y \<longleftrightarrow> (\<exists>x. m = Inr x \<and> f x = Inr y)"
  by (cases m) (simp_all add: bindE_def)

lemma bindE_simps [simp]: "bindE (Inl e) f = Inl e" "bindE (Inr x) f = f x"
  by (simp_all add: bindE_def)

lemma adjusted_signature_eq:
  "(dec_sig d)\<lparr> sig_v := sig_v (dec_sig d) + 55 \<rparr> = adjusted_signature d"
  by (simp add: adjusted_signature_def eip155_recovery_v_def)

text \<open>
  C3: for a decoded EIP155 transaction with \<open>sig.v\<close> in \<open>{0, 1}\<close>, the validator accepts exactly
  when serialising the canonical transaction with the adjusted signature succeeds, recovering an
  address from the hash of that serialisation with the same adjusted signature succeeds, parsing
  the serialisation back succeeds, and the parsed sender is the recovered address.
\<close>

theorem validateBatchTransaction_EIP155_accepts_iff:
  assumes "sig_v (dec_sig d) = 0 \<or> sig_v (dec_sig d) = 1"
  shows "validateBatchTransaction L (Some ''EIP155'') (Some d) = Inr True \<longleftrightarrow>
         (\<exists>rawTx recoveredAddress parsedTx.
            serializeTransaction L (canonical_transaction d) (adjusted_signature d) = Inr rawTx \<and>
            recoverAddress L (keccak256 L rawTx) (adjusted_signature d) = Inr recoveredAddress \<and>
            parseTransaction L rawTx = Inr parsedTx \<and>
            ptx_from parsedTx = Some recoveredAddress)"
proof -
  have "validateBatchTransaction L (Some ''EIP155'') (Some d) =
          bindE (serializeTransaction L (canonical_transaction d) (adjusted_signature d)) (\<lambda>rawTx.
          bindE (recoverAddress L (keccak256 L rawTx) (adjusted_signature d)) (\<lambda>recoveredAddress.
          bindE (parseTransaction L rawTx) (\<lambda>parsedTx.
          Inr (Some recoveredAddress = ptx_from parsedTx))))"
    unfolding validateBatchTransaction_def
    using assms by (auto simp: Let_def adjusted_signature_eq canonical_transaction_def)
  then show ?thesis
    by (auto simp: bindE_Inr_iff)
qed

theorem validateBatchTransaction_EIP155_accepts_iff_witness:
  "(sig_v (dec_sig (demo_tx 1)) = 0 \<or> sig_v (dec_sig (demo_tx 1)) = 1) \<and>
   validateBatchTransaction demo_lib (Some ''EIP155'') (Some (demo_tx 1)) = Inr True"
  using validateBatchTransaction_EIP155_accepts_iff [of "demo_tx 1" demo_lib]
  by (simp add: demo_tx_def demo_lib_def canonical_transaction_def adjusted_signature_def)

lemma readUInt8_first_byte:
  "readUInt8 (buffer_slice tx 0 (Suc 0)) = (case tx of [] \<Rightarrow> Inl BufferOutOfRange | b # _ \<Rightarrow> Inr (unat b))"
  by (cases tx) (simp_all add: readUInt8_def buffer_slice_def Let_def)

lemma validate_null_type: "validateBatchTransaction L None dopt = Inr False"
  by (simp add: validateBatchTransaction_def)

lemma validate_bad_v:
  "sig_v (dec_sig d) \<noteq> 0 \<Longrightarrow> sig_v (dec_sig d) \<noteq> 1 \<Longrightarrow>
   validateBatchTransaction L (Some t) (Some d) = Inr False"
  by (simp add: validateBatchTransaction_def)

lemma validate_other_type:
  "t \<noteq> ''EIP155'' \<Longrightarrow> validateBatchTransaction L (Some t) (Some d) = Inr False"
  by (simp add: validateBatchTransaction_def)

lemma validate_null_decoded:
  "validateBatchTransaction L (Some t) None = Inl NullDereference"
  by (simp add: validateBatchTransaction_def)

lemma validate_ETH_SIGN_never_accepts:
  "validateBatchTransaction L (Some ''ETH_SIGN'') dopt \<noteq> Inr True"
  by (cases dopt) (simp_all add: validate_null_decoded validate_other_type)

lemma try_block_EIP155:
  "unat b = TxType_EIP155 L \<Longrightarrow>
   try_block L (b # rest) =
     (case eip155TxData_decode L (buffer_toString_hex (b # rest)) of
        Inl e \<Rightarrow> Inl (e, \<lparr> decoded = None, type = Some ''EIP155'' \<rparr>)
      | Inr d \<Rightarrow>
          (case validateBatchTransaction L (Some ''EIP155'') d of
             Inl e \<Rightarrow> Inl (e, \<lparr> decoded = d, type = Some ''EIP155'' \<rparr>)
           | Inr ok \<Rightarrow> Inr \<lparr> decoded = (if \<not> ok then None else d), type = Some ''EIP155'' \<rparr>))"
  by (simp add: try_block_def readUInt8_first_byte)

lemma try_block_EthSign:
  "unat b = TxType_EthSign L \<Longrightarrow> TxType_EthSign L \<noteq> TxType_EIP155 L \<Longrightarrow>
   try_block L (b # rest) =
     (case ethSignTxData_decode L (buffer_toString_hex (b # rest)) of
        Inl e \<Rightarrow> Inl (e, \<lparr> decoded = None, type = Some ''ETH_SIGN'' \<rparr>)
      | Inr d \<Rightarrow>
          (case validateBatchTransaction L (Some ''ETH_SIGN'') d of
             Inl e \<Rightarrow> Inl (e, \<lparr> decoded = d, type = Some ''ETH_SIGN'' \<rparr>)
           | Inr ok \<Rightarrow> Inr \<lparr> decoded = (if \<not> ok then None else d), type = Some ''ETH_SIGN'' \<rparr>))"
  by (simp add: try_block_def readUInt8_first_byte)

lemma maybeDecode_EthSign:
  assumes "unat b = TxType_EthSign L" and "TxType_EthSign L \<noteq> TxType_EIP155 L"
  shows "maybeDecodeSequencerBatchTransaction L (b # rest) =
           \<lparr> decoded = None, type = Some ''ETH_SIGN'' \<rparr>"
proof (cases "ethSignTxData_decode L (buffer_toString_hex (b # rest))")
  case (Inl e)
  then show ?thesis
    by (simp add: maybeDecodeSequencerBatchTransaction_def try_block_EthSign [OF assms])
next
  case (Inr d)
  show ?thesis
  proof (cases d)
    case None
    with Inr show ?thesis
      by (simp add: maybeDecodeSequencerBatchTransaction_def try_block_EthSign [OF assms]
          validate_null_decoded)
  next
    case (Some x)
    with Inr show ?thesis
      by (simp add: maybeDecodeSequencerBatchTransaction_def try_block_EthSign [OF assms]
          validate_other_type)
  qed
qed

lemma maybeDecode_EIP155_rejected:
  assumes "unat b = TxType_EIP155 L"
    and "eip155TxData_decode L (buffer_toString_hex (b # rest)) = Inr d"
    and "validateBatchTransaction L (Some ''EIP155'') d = Inr False"
  shows "maybeDecodeSequencerBatchTransaction L (b # rest) =
           \<lparr> decoded = None, type = Some ''EIP155'' \<rparr>"
  using assms(2,3)
  by (simp add: maybeDecodeSequencerBatchTransaction_def try_block_EIP155 [OF assms(1)])

text \<open>
  C4: \<^verbatim>\<open>validateBatchTransaction\<close> returns \<^verbatim>\<open>false\<close> for every input with a null type, for
  every decoded transaction whose \<open>sig.v\<close> is neither 0 nor 1 whatever its type, and for every
  decoded \<^verbatim>\<open>ETH_SIGN\<close> transaction. When it returns \<^verbatim>\<open>false\<close> for a slice with the EIP155 marker,
  \<^verbatim>\<open>maybeDecodeSequencerBatchTransaction\<close> returns a null payload with the type tag kept; a slice
  with the ETH_SIGN marker always ends with type \<^verbatim>\<open>'ETH_SIGN'\<close> and a null payload, whatever its
  decoder does.
\<close>

theorem validateBatchTransaction_rejections:
  "validateBatchTransaction L None dopt = Inr False \<and>
   (sig_v (dec_sig d) \<noteq> 0 \<and> sig_v (dec_sig d) \<noteq> 1 \<longrightarrow>
      validateBatchTransaction L (Some t) (Some d) = Inr False) \<and>
   validateBatchTransaction L (Some ''ETH_SIGN'') (Some d') = Inr False \<and>
   (unat b = TxType_EIP155 L \<and>
    eip155TxData_decode L (buffer_toString_hex (b # rest)) = Inr dd \<and>
    validateBatchTransaction L (Some ''EIP155'') dd = Inr False \<longrightarrow>
      maybeDecodeSequencerBatchTransaction L (b # rest) =
        \<lparr> decoded = None, type = Some ''EIP155'' \<rparr>) \<and>
   (unat b' = TxType_EthSign L \<and> TxType_EthSign L \<noteq> TxType_EIP155 L \<longrightarrow>
      maybeDecodeSequencerBatchTransaction L (b' # rest') =
        \<lparr> decoded = None, type = Some ''ETH_SIGN'' \<rparr>)"
  by (simp add: validate_null_type validate_bad_v validate_other_type
      maybeDecode_EIP155_rejected maybeDecode_EthSign)

theorem validateBatchTransaction_rejections_witness:
  "(sig_v (dec_sig (demo_tx 2)) \<noteq> 0 \<and> sig_v (dec_sig (demo_tx 2)) \<noteq> 1) \<and>
   validateBatchTransaction demo_lib (Some ''EIP155'') (Some (demo_tx 2)) = Inr False \<and>
   (unat (0 :: byte) = TxType_EIP155 demo_lib \<and>
    eip155TxData_decode demo_lib (buffer_toString_hex [0, 2]) = Inr (Some (demo_tx 2))) \<and>
   maybeDecodeSequencerBatchTransaction demo_lib [0, 2] =
     \<lparr> decoded = None, type = Some ''EIP155'' \<rparr> \<and>
   (unat (1 :: byte) = TxType_EthSign demo_lib \<and>
    TxType_EthSign demo_lib \<noteq> TxType_EIP155 demo_lib) \<and>
   maybeDecodeSequencerBatchTransaction demo_lib [1, 5] =
     \<lparr> decoded = None, type = Some ''ETH_SIGN'' \<rparr>"
proof -
  have v: "sig_v (dec_sig (demo_tx 2)) \<noteq> 0 \<and> sig_v (dec_sig (demo_tx 2)) \<noteq> 1"
    by (simp add: demo_tx_def)
  have m: "unat (0 :: byte) = TxType_EIP155 demo_lib"
          "unat (1 :: byte) = TxType_EthSign demo_lib"
          "TxType_EthSign demo_lib \<noteq> TxType_EIP155 demo_lib"
    by (simp_all add: demo_lib_def)
  have h: "buffer_toString_hex [0, 2] = ''0002''"
    by (simp add: buffer_toString_hex_def hex_digit_def)
  have dd: "eip155TxData_decode demo_lib (buffer_toString_hex [0, 2]) = Inr (Some (demo_tx 2))"
    by (simp add: h) (simp add: demo_lib_def)
  show ?thesis
    using validateBatchTransaction_rejections
      [of demo_lib None "demo_tx 2" "''EIP155''" "demo_tx 0" 0 "[2]" "Some (demo_tx 2)" 1 "[5]"]
      v m dd
    by simp
qed











text \<open>
  C10: with a non-null type and a null payload \<^verbatim>\<open>validateBatchTransaction\<close> throws at
  \<^verbatim>\<open>decoded.sig.v\<close> instead of returning \<^verbatim>\<open>false\<close>. If a decoder returns null for a slice with a
  recognised marker, the \<^verbatim>\<open>try\<close> block of \<^verbatim>\<open>maybeDecodeSequencerBatchTransaction\<close> ends with that
  error, and the function still returns, with the tag and a null payload.
\<close>

theorem validateBatchTransaction_null_decoded_throws:
  "validateBatchTransaction L (Some t) None = Inl NullDereference \<and>
   (unat b = TxType_EIP155 L \<and>
    eip155TxData_decode L (buffer_toString_hex (b # rest)) = Inr None \<longrightarrow>
      try_block L (b # rest) =
        Inl (NullDereference, \<lparr> decoded = None, type = Some ''EIP155'' \<rparr>) \<and>
      maybeDecodeSequencerBatchTransaction L (b # rest) =
        \<lparr> decoded = None, type = Some ''EIP155'' \<rparr>) \<and>
   (unat b' = TxType_EthSign L \<and> TxType_EthSign L \<noteq> TxType_EIP155 L \<and>
    ethSignTxData_decode L (buffer_toString_hex (b' # rest')) = Inr None \<longrightarrow>
      try_block L (b' # rest') =
        Inl (NullDereference, \<lparr> decoded = None, type = Some ''ETH_SIGN'' \<rparr>) \<and>
      maybeDecodeSequencerBatchTransaction L (b' # rest') =
        \<lparr> decoded = None, type = Some ''ETH_SIGN'' \<rparr>)"
  by (simp add: maybeDecodeSequencerBatchTransaction_def try_block_EIP155 try_block_EthSign
      validate_null_decoded)

theorem validateBatchTransaction_null_decoded_throws_witness:
  "(unat (0 :: byte) = TxType_EIP155 demo_lib \<and>
    eip155TxData_decode demo_lib (buffer_toString_hex [0]) = Inr None) \<and>
   try_block demo_lib [0] = Inl (NullDereference, \<lparr> decoded = None, type = Some ''EIP155'' \<rparr>) \<and>
   maybeDecodeSequencerBatchTransaction demo_lib [0] = \<lparr> decoded = None, type = Some ''EIP155'' \<rparr> \<and>
   (unat (1 :: byte) = TxType_EthSign demo_lib \<and> TxType_EthSign demo_lib \<noteq> TxType_EIP155 demo_lib \<and>
    ethSignTxData_decode demo_lib (buffer_toString_hex [1]) = Inr None) \<and>
   try_block demo_lib [1] = Inl (NullDereference, \<lparr> decoded = None, type = Some ''ETH_SIGN'' \<rparr>) \<and>
   maybeDecodeSequencerBatchTransaction demo_lib [1] = \<lparr> decoded = None, type = Some ''ETH_SIGN'' \<rparr>"
proof -
  have m: "unat (0 :: byte) = TxType_EIP155 demo_lib"
          "unat (1 :: byte) = TxType_EthSign demo_lib"
          "TxType_EthSign demo_lib \<noteq> TxType_EIP155 demo_lib"
    by (simp_all add: demo_lib_def)
  have h: "buffer_toString_hex [0] = ''00''" "buffer_toString_hex [1] = ''01''"
    by (simp_all add: buffer_toString_hex_def hex_digit_def)
  have d: "eip155TxData_decode demo_lib (buffer_toString_hex [0]) = Inr None"
          "ethSignTxData_decode demo_lib (buffer_toString_hex [1]) = Inr None"
    by (simp_all add: h) (simp_all add: demo_lib_def)
  show ?thesis
    using validateBatchTransaction_null_decoded_throws
      [of demo_lib "''EIP155''" 0 "[]" 1 "[]"] m d
    by simp
qed

section \<open>Properties of getExtraData\<close>

lemma find_first:
  "\<forall>y \<in> set pre. \<not> P y \<Longrightarrow> P c \<Longrightarrow> find P (pre @ c # post) = Some c"
  by (induction pre) simp_all

lemma find_none: "\<forall>y \<in> set xs. \<not> P y \<Longrightarrow> find P xs = None"
  by (induction xs) simp_all

lemma getExtraData_found:
  assumes "getTransaction P event = Inr l1Transaction"
    and "getBlock P event = Inr eventBlock"
    and "queryFilter P (ev_address event) (blk_number eventBlock) (blk_number eventBlock) = Inr found"
  shows "getExtraData P event =
           (case find (is_batch_submission event) found of
              None \<Rightarrow> Inl MissingBatchSubmission
            | Some c \<Rightarrow> Inr (extra_data_of l1Transaction eventBlock c))"
  using assms by (simp add: getExtraData_def extra_data_of_def split: option.splits)

text \<open>
  C8: when the provider returns the transaction, the block and the companion events queried
  from the block's height to the block's height, \<^verbatim>\<open>getExtraData\<close> returns the metadata of the
  first queried event whose transaction hash is the event's and whose log index is one less than
  the event's. If no queried event qualifies it fails with the missing-companion error, and the
  dispatcher then makes no store call. Any provider that answers these three requests in the same
  way gives the same result: no other block height is queried.
\<close>

theorem getExtraData_selects_companion:
  assumes "getTransaction P event = Inr l1Transaction"
    and "getBlock P event = Inr eventBlock"
    and "queryFilter P (ev_address event) (blk_number eventBlock) (blk_number eventBlock) = Inr found"
  shows "(found = pre @ c # post \<and>
          (\<forall>y \<in> set pre. \<not> (fe_transactionHash y = ev_transactionHash event \<and>
                               fe_logIndex y = ev_logIndex event - 1)) \<and>
          fe_transactionHash c = ev_transactionHash event \<and>
          fe_logIndex c = ev_logIndex event - 1 \<longrightarrow>
            getExtraData P event = Inr (extra_data_of l1Transaction eventBlock c)) \<and>
         ((\<forall>y \<in> set found. \<not> (fe_transactionHash y = ev_transactionHash event \<and>
                                 fe_logIndex y = ev_logIndex event - 1)) \<longrightarrow>
            getExtraData P event = Inl MissingBatchSubmission \<and>
            handle_event P L event db = (Some MissingBatchSubmission, db)) \<and>
         (getTransaction P' event = Inr l1Transaction \<and>
          getBlock P' event = Inr eventBlock \<and>
          queryFilter P' (ev_address event) (blk_number eventBlock) (blk_number eventBlock) = Inr found \<longrightarrow>
            getExtraData P' event = getExtraData P event)"
proof (intro conjI impI)
  assume h: "found = pre @ c # post \<and>
          (\<forall>y \<in> set pre. \<not> (fe_transactionHash y = ev_transactionHash event \<and>
                               fe_logIndex y = ev_logIndex event - 1)) \<and>
          fe_transactionHash c = ev_transactionHash event \<and>
          fe_logIndex c = ev_logIndex event - 1"
  then have "find (is_batch_submission event) found = Some c"
    by (simp add: find_first is_batch_submission_def)
  then show "getExtraData P event = Inr (extra_data_of l1Transaction eventBlock c)"
    by (simp add: getExtraData_found [OF assms])
next
  assume "\<forall>y \<in> set found. \<not> (fe_transactionHash y = ev_transactionHash event \<and>
                                 fe_logIndex y = ev_logIndex event - 1)"
  then have "find (is_batch_submission event) found = None"
    by (simp add: find_none is_batch_submission_def)
  then show "getExtraData P event = Inl MissingBatchSubmission"
    by (simp add: getExtraData_found [OF assms])
  then show "handle_event P L event db = (Some MissingBatchSubmission, db)"
    by (simp add: handle_event_def)
next
  assume "getTransaction P' event = Inr l1Transaction \<and>
          getBlock P' event = Inr eventBlock \<and>
          queryFilter P' (ev_address event) (blk_number eventBlock) (blk_number eventBlock) = Inr found"
  then show "getExtraData P' event = getExtraData P event"
    by (simp add: getExtraData_found [OF assms] getExtraData_found)
qed

theorem getExtraData_selects_companion_witness:
  "getExtraData demo_provider (demo_event ''0xbb'' 7) =
     Inr (extra_data_of
            \<lparr> l1tx_from = ''0x00000000000000000000000000000000000000f0'', l1tx_hash = ''0xbb'',
              l1tx_data = ''0x'' \<rparr>
            \<lparr> blk_number = 100, blk_timestamp = 1600000000 \<rparr>
            (demo_block_events ! 1)) \<and>
   getExtraData demo_provider (demo_event ''0xbb'' 6) = Inl MissingBatchSubmission \<and>
   handle_event demo_provider demo_lib (demo_event ''0xbb'' 6) [] = (Some MissingBatchSubmission, []) \<and>
   getExtraData (demo_provider \<lparr> queryFilter := (\<lambda>address fromBlock toBlock.
        if fromBlock = 100 \<and> toBlock = 100 then Inr demo_block_events else Inr []) \<rparr>)
      (demo_event ''0xbb'' 7) = getExtraData demo_provider (demo_event ''0xbb'' 7)"
proof -
  let ?tx = "\<lambda>h. \<lparr> l1tx_from = ''0x00000000000000000000000000000000000000f0'', l1tx_hash = h,
                    l1tx_data = ''0x'' \<rparr>"
  let ?blk = "\<lparr> blk_number = 100, blk_timestamp = 1600000000 \<rparr>"
  let ?P' = "demo_provider \<lparr> queryFilter := (\<lambda>address fromBlock toBlock.
        if fromBlock = 100 \<and> toBlock = 100 then Inr demo_block_events else Inr []) \<rparr>"
  have a: "getTransaction demo_provider (demo_event h i) = Inr (?tx h)"
          "getBlock demo_provider (demo_event h i) = Inr ?blk"
          "queryFilter demo_provider (ev_address (demo_event h i)) (blk_number ?blk) (blk_number ?blk)
             = Inr demo_block_events" for h i
    by (simp_all add: demo_provider_def demo_event_def)
  have b: "getTransaction ?P' (demo_event h i) = Inr (?tx h)"
          "getBlock ?P' (demo_event h i) = Inr ?blk"
          "queryFilter ?P' (ev_address (demo_event h i)) (blk_number ?blk) (blk_number ?blk)
             = Inr demo_block_events" for h i
    by (simp_all add: demo_provider_def demo_event_def)
  from getExtraData_selects_companion [OF a, of "[demo_block_events ! 0]" "demo_block_events ! 1" "[]"
         "''0xbb''" 7 demo_lib "[]" ?P']
       getExtraData_selects_companion [OF a, of "[]" "demo_block_events ! 0" "[]"
         "''0xbb''" 6 demo_lib "[]" ?P']
       b
  show ?thesis
    by (simp add: demo_block_events_def demo_event_def)
qed

section \<open>The loops of parseEvent refine the assembler\<close>

lemma buffer_slice_bytes_at: "buffer_slice buf a b = bytes_at buf a b"
  by (auto simp: buffer_slice_def bytes_at_def Let_def min_def)

lemma bytes_at_Nil_iff: "bytes_at buf a b = [] \<longleftrightarrow> b \<le> a \<or> length buf \<le> a"
  by (auto simp: bytes_at_def)

lemma length_bytes_at: "length (bytes_at buf a b) = min (b - a) (length buf - a)"
  by (simp add: bytes_at_def)

lemma be_uint_Nil [simp]: "be_uint [] = 0"
  by (simp add: be_uint_def)

lemma be_uint_snoc: "be_uint (bs @ [x]) = be_uint bs * 256 + unat x"
proof -
  have "(\<Sum>i<length bs. unat ((bs @ [x]) ! i) * 256 ^ (length bs - i)) =
        (\<Sum>i<length bs. (unat (bs ! i) * 256 ^ (length bs - 1 - i)) * 256)"
  proof (rule sum.cong)
    fix i assume "i \<in> {..<length bs}"
    then have i: "i < length bs" by simp
    then have "length bs - i = Suc (length bs - 1 - i)" by simp
    then show "unat ((bs @ [x]) ! i) * 256 ^ (length bs - i) =
               (unat (bs ! i) * 256 ^ (length bs - 1 - i)) * 256"
      using i by (simp add: nth_append)
  qed simp
  then show ?thesis
    by (simp add: be_uint_def sum_distrib_right)
qed

lemma foldl_be_uint: "foldl (\<lambda>acc x. acc * 256 + unat x) 0 bs = be_uint bs"
  by (induction bs rule: rev_induct) (simp_all add: be_uint_snoc)

lemma BigNumber_from_buffer_Inr:
  "BigNumber_from_buffer b = Inr v \<longleftrightarrow> b \<noteq> [] \<and> v = be_uint b"
  by (auto simp: BigNumber_from_buffer_def foldl_be_uint)

lemma toNumber_Inr: "toNumber n = Inr v \<longleftrightarrow> n < 2 ^ 53 \<and> v = n"
  by (auto simp: toNumber_def)

lemma BigNumber_from_number_Inr: "BigNumber_from_number n = Inr v \<longleftrightarrow> n < 2 ^ 53 - 1 \<and> v = n"
  by (auto simp: BigNumber_from_number_def)

lemma read_uint_Inr:
  "bindE (BigNumber_from_buffer (buffer_slice cd a b)) toNumber = Inr v \<Longrightarrow>
   a < b \<and> a < length cd \<and> v = be_uint (bytes_at cd a b)"
  by (auto simp: bindE_Inr_iff BigNumber_from_buffer_Inr toNumber_Inr buffer_slice_bytes_at
      bytes_at_Nil_iff)

lemma parseSequencerBatchContext_Inr:
  assumes "parseSequencerBatchContext cd (15 + 16 * i) = Inr c"
  shows "c = read_context cd i"
proof -
  from assms obtain a b t n where
    a: "bindE (BigNumber_from_buffer (buffer_slice cd (15 + 16 * i) (15 + 16 * i + 3))) toNumber = Inr a"
    and b: "bindE (BigNumber_from_buffer (buffer_slice cd (15 + 16 * i + 3) (15 + 16 * i + 6))) toNumber = Inr b"
    and t: "bindE (BigNumber_from_buffer (buffer_slice cd (15 + 16 * i + 6) (15 + 16 * i + 11))) toNumber = Inr t"
    and n: "bindE (BigNumber_from_buffer (buffer_slice cd (15 + 16 * i + 11) (15 + 16 * i + 16))) toNumber = Inr n"
    and c: "c = \<lparr> numSequencedTransactions = a, numSubsequentQueueTransactions = b,
                 ctx_timestamp = t, ctx_blockNumber = n \<rparr>"
    unfolding parseSequencerBatchContext_def bindE_Inr_iff [where m = "bindE _ toNumber"]
    by auto
  show ?thesis
    using read_uint_Inr [OF a] read_uint_Inr [OF b] read_uint_Inr [OF t] read_uint_Inr [OF n]
    by (simp add: c read_context_def)
qed

lemma parseSequencerBatchTransaction_Inr:
  assumes "parseSequencerBatchTransaction cd p = Inr s"
  shows "p < length cd \<and> s = bytes_at cd (p + 3) (p + 3 + be_uint (bytes_at cd p (p + 3)))"
proof -
  from assms obtain l where
    l: "bindE (BigNumber_from_buffer (buffer_slice cd p (p + 3))) toNumber = Inr l"
    and s: "s = buffer_slice cd (p + 3) (p + 3 + l)"
    unfolding parseSequencerBatchTransaction_def bindE_Inr_iff [where m = "bindE _ toNumber"]
    by auto
  show ?thesis
    using read_uint_Inr [OF l] by (simp add: s buffer_slice_bytes_at)
qed

lemma number_roundtrip_Inr:
  "bindE (BigNumber_from_number n) toNumber = Inr v \<Longrightarrow> v = n"
  by (auto simp: bindE_Inr_iff BigNumber_from_number_Inr toNumber_Inr)

lemma index_Inr:
  "bindE (BigNumber_from_number ti) (\<lambda>ti. toNumber (p + ti)) = Inr v \<Longrightarrow> v = p + ti"
  by (auto simp: bindE_Inr_iff BigNumber_from_number_Inr toNumber_Inr)

lemma sequenced_step_Inr:
  assumes "sequenced_step L ex cd c st = Inr st'"
  shows "\<exists>s. parseSequencerBatchTransaction cd (nextTxPointer st) = Inr s \<and>
             st' = st\<lparr> transactionEntries := transactionEntries st @
                          [sequencer_entry L ex c (transactionIndex st) s],
                       nextTxPointer := nextTxPointer st + (3 + length s),
                       transactionIndex := transactionIndex st + 1 \<rparr>"
proof -
  from assms obtain s index batchIndex blockNumber timestamp gasLimit where
    s: "parseSequencerBatchTransaction cd (nextTxPointer st) = Inr s"
    and i: "bindE (BigNumber_from_number (transactionIndex st))
              (\<lambda>ti. toNumber (ex_prevTotalElements ex + ti)) = Inr index"
    and b: "toNumber (ex_batchIndex ex) = Inr batchIndex"
    and n: "bindE (BigNumber_from_number (ctx_blockNumber c)) toNumber = Inr blockNumber"
    and t: "bindE (BigNumber_from_number (ctx_timestamp c)) toNumber = Inr timestamp"
    and g: "bindE (BigNumber_from_number (ex_gasLimit ex)) toNumber = Inr gasLimit"
    and st': "st' = st\<lparr> transactionEntries := transactionEntries st @
                    [\<lparr> te_index = index,
                       te_batchIndex = batchIndex,
                       te_blockNumber = blockNumber,
                       te_timestamp = timestamp,
                       te_gasLimit = gasLimit,
                       te_target = ''0x4200000000000000000000000000000000000005'',
                       te_origin = None,
                       te_data = toHexString L s,
                       te_queueOrigin = ''sequencer'',
                       te_type = type (maybeDecodeSequencerBatchTransaction L s),
                       te_queueIndex = None,
                       te_decoded = decoded (maybeDecodeSequencerBatchTransaction L s) \<rparr>],
                 nextTxPointer := nextTxPointer st + (3 + length s),
                 transactionIndex := transactionIndex st + 1 \<rparr>"
    unfolding sequenced_step_def Let_def
      bindE_Inr_iff [where m = "parseSequencerBatchTransaction _ _"]
      bindE_Inr_iff [where m = "bindE _ _"]
      bindE_Inr_iff [where m = "toNumber _"]
    by blast
  have "batchIndex = ex_batchIndex ex"
    using b by (simp add: toNumber_Inr)
  with index_Inr [OF i] number_roundtrip_Inr [OF n] number_roundtrip_Inr [OF t]
    number_roundtrip_Inr [OF g] s st'
  show ?thesis
    by (simp add: sequencer_entry_def)
qed

lemma queue_step_Inr:
  assumes "queue_step event ex st = Inr st'"
  shows "st' = st\<lparr> transactionEntries := transactionEntries st @
                     [provisional_entry ex (transactionIndex st)
                        (ev_startingQueueIndex event + enqueuedCount st)],
                   enqueuedCount := enqueuedCount st + 1,
                   transactionIndex := transactionIndex st + 1 \<rparr>"
proof -
  from assms obtain ec index batchIndex blockNumber timestamp gasLimit q where
    e: "BigNumber_from_number (enqueuedCount st) = Inr ec"
    and i: "bindE (BigNumber_from_number (transactionIndex st))
              (\<lambda>ti. toNumber (ex_prevTotalElements ex + ti)) = Inr index"
    and b: "toNumber (ex_batchIndex ex) = Inr batchIndex"
    and n: "bindE (BigNumber_from_number 0) toNumber = Inr blockNumber"
    and t: "bindE (BigNumber_from_number 0) toNumber = Inr timestamp"
    and g: "bindE (BigNumber_from_number 0) toNumber = Inr gasLimit"
    and q: "toNumber (ev_startingQueueIndex event + ec) = Inr q"
    and st': "st' = st\<lparr> transactionEntries := transactionEntries st @
                    [\<lparr> te_index = index,
                       te_batchIndex = batchIndex,
                       te_blockNumber = blockNumber,
                       te_timestamp = timestamp,
                       te_gasLimit = gasLimit,
                       te_target = ''0x0000000000000000000000000000000000000000'',
                       te_origin = Some ''0x0000000000000000000000000000000000000000'',
                       te_data = ''0x'',
                       te_queueOrigin = ''l1'',
                       te_type = Some ''EIP155'',
                       te_queueIndex = Some q,
                       te_decoded = None \<rparr>],
                 enqueuedCount := enqueuedCount st + 1,
                 transactionIndex := transactionIndex st + 1 \<rparr>"
    unfolding queue_step_def Let_def
      bindE_Inr_iff [where m = "BigNumber_from_number _"]
      bindE_Inr_iff [where m = "bindE _ _"]
      bindE_Inr_iff [where m = "toNumber _"]
    by blast
  have "batchIndex = ex_batchIndex ex" "ec = enqueuedCount st"
       "q = ev_startingQueueIndex event + ec"
    using b e q by (simp_all add: toNumber_Inr BigNumber_from_number_Inr)
  with index_Inr [OF i] number_roundtrip_Inr [OF n] number_roundtrip_Inr [OF t]
    number_roundtrip_Inr [OF g] st'
  show ?thesis
    by (simp add: provisional_entry_def)
qed

lemma sequenced_loop_Inr:
  "sequenced_loop L ex cd c j st = Inr st' \<Longrightarrow>
   transactionEntries st' = transactionEntries st @
      sequencer_entries L ex c (transactionIndex st)
        (cursor_slices cd (nextTxPointer st) (numSequencedTransactions c - j)) \<and>
   transactionIndex st' = transactionIndex st + (numSequencedTransactions c - j) \<and>
   enqueuedCount st' = enqueuedCount st \<and>
   nextTxPointer st' = cursor_after cd (nextTxPointer st) (numSequencedTransactions c - j) \<and>
   reads_ok cd (nextTxPointer st) (numSequencedTransactions c - j)"
proof (induction L ex cd c j st rule: sequenced_loop.induct)
  case (1 L ex cd c j st)
  show ?case
  proof (cases "j < numSequencedTransactions c")
    case False
    with "1.prems" show ?thesis
      by (simp add: sequenced_loop.simps [of L ex cd c j st])
  next
    case True
    with "1.prems" obtain st1 where
      step: "sequenced_step L ex cd c st = Inr st1"
      and rest: "sequenced_loop L ex cd c (j + 1) st1 = Inr st'"
      by (auto simp: sequenced_loop.simps [of L ex cd c j st] bindE_Inr_iff)
    from sequenced_step_Inr [OF step] obtain s where
      s: "parseSequencerBatchTransaction cd (nextTxPointer st) = Inr s"
      and st1: "st1 = st\<lparr> transactionEntries := transactionEntries st @
                          [sequencer_entry L ex c (transactionIndex st) s],
                       nextTxPointer := nextTxPointer st + (3 + length s),
                       transactionIndex := transactionIndex st + 1 \<rparr>"
      by blast
    note ps = parseSequencerBatchTransaction_Inr [OF s]
    from True have k: "numSequencedTransactions c - j = Suc (numSequencedTransactions c - (j + 1))"
      by simp
    from "1.IH" [OF True rest] ps show ?thesis
      unfolding k by (simp add: st1 Let_def add.assoc)
  qed
qed

lemma queue_loop_Inr:
  "queue_loop event ex c j st = Inr st' \<Longrightarrow>
   transactionEntries st' = transactionEntries st @
      provisional_entries ex (transactionIndex st)
        (ev_startingQueueIndex event + enqueuedCount st)
        (numSubsequentQueueTransactions c - j) \<and>
   transactionIndex st' = transactionIndex st + (numSubsequentQueueTransactions c - j) \<and>
   enqueuedCount st' = enqueuedCount st + (numSubsequentQueueTransactions c - j) \<and>
   nextTxPointer st' = nextTxPointer st"
proof (induction event ex c j st rule: queue_loop.induct)
  case (1 event ex c j st)
  show ?case
  proof (cases "j < numSubsequentQueueTransactions c")
    case False
    with "1.prems" show ?thesis
      by (simp add: queue_loop.simps [of event ex c j st])
  next
    case True
    with "1.prems" obtain st1 where
      step: "queue_step event ex st = Inr st1"
      and rest: "queue_loop event ex c (j + 1) st1 = Inr st'"
      by (auto simp: queue_loop.simps [of event ex c j st] bindE_Inr_iff)
    note st1 = queue_step_Inr [OF step]
    from True have k: "numSubsequentQueueTransactions c - j
                         = Suc (numSubsequentQueueTransactions c - (j + 1))"
      by simp
    from "1.IH" [OF True rest] show ?thesis
      unfolding k by (simp add: st1)
  qed
qed

lemma length_cursor_slices [simp]: "length (cursor_slices cd p k) = k"
  by (induction k arbitrary: p) (simp_all add: Let_def)

lemma cursor_slices_add:
  "cursor_slices cd p (a + b) = cursor_slices cd p a @ cursor_slices cd (cursor_after cd p a) b"
  by (induction a arbitrary: p) (simp_all add: Let_def)

lemma reads_ok_add:
  "reads_ok cd p (a + b) \<longleftrightarrow> reads_ok cd p a \<and> reads_ok cd (cursor_after cd p a) b"
  by (induction a arbitrary: p) (auto simp: Let_def)

lemma reads_ok_past_end: "length cd \<le> p \<Longrightarrow> reads_ok cd p k \<Longrightarrow> k = 0"
  by (cases k) simp_all

lemma total_sequenced_Cons [simp]:
  "total_sequenced (c # cs) = numSequencedTransactions c + total_sequenced cs"
  by (simp add: total_sequenced_def)

lemma total_sequenced_Nil [simp]: "total_sequenced [] = 0"
  by (simp add: total_sequenced_def)

lemma context_loop_Inr:
  "context_loop L event ex cd n i st = Inr st' \<Longrightarrow>
   transactionEntries st' = transactionEntries st @
      assemble L (ev_startingQueueIndex event) ex (map (read_context cd) [i..<n])
        (transactionIndex st) (enqueuedCount st)
        (cursor_slices cd (nextTxPointer st)
           (total_sequenced (map (read_context cd) [i..<n]))) \<and>
   reads_ok cd (nextTxPointer st) (total_sequenced (map (read_context cd) [i..<n])) \<and>
   (\<forall>k. i \<le> k \<and> k < n \<longrightarrow>
      parseSequencerBatchContext cd (15 + 16 * k) = Inr (read_context cd k))"
proof (induction L event ex cd n i st rule: context_loop.induct)
  case (1 L event ex cd n i st)
  show ?case
  proof (cases "i < n")
    case False
    with "1.prems" show ?thesis
      by (auto simp: context_loop.simps [of L event ex cd n i st])
  next
    case True
    with "1.prems" obtain c st1 st2 where
      c: "parseSequencerBatchContext cd (15 + 16 * i) = Inr c"
      and l1: "sequenced_loop L ex cd c 0 st = Inr st1"
      and l2: "queue_loop event ex c 0 st1 = Inr st2"
      and rest: "context_loop L event ex cd n (i + 1) st2 = Inr st'"
      by (auto simp: context_loop.simps [of L event ex cd n i st] bindE_Inr_iff Let_def)
    have ceq: "c = read_context cd i"
      by (rule parseSequencerBatchContext_Inr [OF c])
    have ih: "transactionEntries st' = transactionEntries st2 @
      assemble L (ev_startingQueueIndex event) ex (map (read_context cd) [i + 1..<n])
        (transactionIndex st2) (enqueuedCount st2)
        (cursor_slices cd (nextTxPointer st2)
           (total_sequenced (map (read_context cd) [i + 1..<n]))) \<and>
      reads_ok cd (nextTxPointer st2) (total_sequenced (map (read_context cd) [i + 1..<n])) \<and>
      (\<forall>k. i + 1 \<le> k \<and> k < n \<longrightarrow>
         parseSequencerBatchContext cd (15 + 16 * k) = Inr (read_context cd k))"
      by (rule "1.IH" [OF True refl rest])
    note s1 = sequenced_loop_Inr [OF l1]
    note s2 = queue_loop_Inr [OF l2]
    have upt: "[i..<n] = i # [i + 1..<n]"
      using True by (simp add: upt_conv_Cons)
    have entries: "transactionEntries st' = transactionEntries st @
      assemble L (ev_startingQueueIndex event) ex (map (read_context cd) [i..<n])
        (transactionIndex st) (enqueuedCount st)
        (cursor_slices cd (nextTxPointer st)
           (total_sequenced (map (read_context cd) [i..<n]))) \<and>
      reads_ok cd (nextTxPointer st) (total_sequenced (map (read_context cd) [i..<n]))"
      using ih s1 s2
      by (simp add: upt ceq [symmetric] cursor_slices_add reads_ok_add add.assoc)
    have ctxs: "parseSequencerBatchContext cd (15 + 16 * k) = Inr (read_context cd k)"
      if "i \<le> k \<and> k < n" for k
    proof (cases "k = i")
      case True
      with c ceq show ?thesis by simp
    next
      case False
      with that ih show ?thesis by simp
    qed
    from entries ctxs show ?thesis
      by blast
  qed
qed

lemma read_numContexts_Inr:
  "bindE (BigNumber_from_buffer (buffer_slice cd 12 15)) toNumber = Inr n \<Longrightarrow>
   n = read_numContexts cd"
  using read_uint_Inr [of cd 12 15 n] by (simp add: read_numContexts_def)

lemma parseEvent_Inr:
  assumes "parseEvent L event ex = Inr res"
  shows "bindE (BigNumber_from_buffer
                  (buffer_slice (fromHexString L (ex_l1TransactionData ex)) 12 15)) toNumber =
           Inr (read_numContexts (fromHexString L (ex_l1TransactionData ex))) \<and>
         out_transactionEntries res =
           assemble L (ev_startingQueueIndex event) ex
             (read_contexts (fromHexString L (ex_l1TransactionData ex))) 0 0
             (cursor_slices (fromHexString L (ex_l1TransactionData ex))
                (15 + 16 * read_numContexts (fromHexString L (ex_l1TransactionData ex)))
                (total_sequenced (read_contexts (fromHexString L (ex_l1TransactionData ex))))) \<and>
         reads_ok (fromHexString L (ex_l1TransactionData ex))
           (15 + 16 * read_numContexts (fromHexString L (ex_l1TransactionData ex)))
           (total_sequenced (read_contexts (fromHexString L (ex_l1TransactionData ex)))) \<and>
         (\<forall>k < read_numContexts (fromHexString L (ex_l1TransactionData ex)).
            parseSequencerBatchContext (fromHexString L (ex_l1TransactionData ex)) (15 + 16 * k) =
              Inr (read_context (fromHexString L (ex_l1TransactionData ex)) k))"
proof -
  let ?cd = "fromHexString L (ex_l1TransactionData ex)"
  from assms obtain n st where
    n: "bindE (BigNumber_from_buffer (buffer_slice ?cd 12 15)) toNumber = Inr n"
    and loop: "context_loop L event ex ?cd n 0
                 \<lparr> transactionEntries = [], transactionIndex = 0, enqueuedCount = 0,
                   nextTxPointer = 15 + 16 * n \<rparr> = Inr st"
    and res: "out_transactionEntries res = transactionEntries st"
    unfolding parseEvent_def Let_def
      bindE_Inr_iff [where m = "bindE _ _"]
      bindE_Inr_iff [where m = "context_loop _ _ _ _ _ _ _"]
      bindE_Inr_iff [where m = "toNumber _"]
    by auto
  have neq: "n = read_numContexts ?cd"
    by (rule read_numContexts_Inr [OF n])
  from context_loop_Inr [OF loop] n show ?thesis
    by (simp add: res neq read_contexts_def)
qed

section \<open>Properties of the assembler\<close>

lemma total_elements_simps [simp]:
  "total_elements [] = 0"
  "total_elements (c # cs) =
     numSequencedTransactions c + numSubsequentQueueTransactions c + total_elements cs"
  by (simp_all add: total_elements_def)

lemma total_queued_simps [simp]:
  "total_queued [] = 0"
  "total_queued (c # cs) = numSubsequentQueueTransactions c + total_queued cs"
  by (simp_all add: total_queued_def)

lemma length_sequencer_entries [simp]:
  "length (sequencer_entries L ex c ti ss) = length ss"
  by (induction ss arbitrary: ti) simp_all

lemma length_provisional_entries [simp]:
  "length (provisional_entries ex ti q k) = k"
  by (induction k arbitrary: ti q) simp_all

lemma upt_append_le: "a \<le> b \<Longrightarrow> b \<le> c \<Longrightarrow> [a..<b] @ [b..<c] = [a..<(c::nat)]"
  by (metis le_iff_add upt_add_eq_append)

lemma upt_head: "[a ..< a + Suc n] = a # [Suc a ..< Suc a + n]"
  by (simp add: upt_conv_Cons)




lemma plan_sequencer_entries:
  "map (\<lambda>e. (te_queueOrigin e, te_timestamp e, te_blockNumber e)) (sequencer_entries L ex c ti ss) =
     replicate (length ss) (''sequencer'', ctx_timestamp c, ctx_blockNumber c)"
  by (induction ss arbitrary: ti) (simp_all add: sequencer_entry_def)

lemma plan_provisional_entries:
  "map (\<lambda>e. (te_queueOrigin e, te_timestamp e, te_blockNumber e)) (provisional_entries ex ti q k) =
     replicate k (''l1'', 0, 0)"
  by (induction k arbitrary: ti q) (simp_all add: provisional_entry_def)

lemma plan_assemble:
  "total_sequenced cs \<le> length sl \<Longrightarrow>
   map (\<lambda>e. (te_queueOrigin e, te_timestamp e, te_blockNumber e)) (assemble L q ex cs ti ec sl) =
     origin_plan cs"
proof (induction cs arbitrary: ti ec sl)
  case Nil
  then show ?case by (simp add: origin_plan_def)
next
  case (Cons c cs)
  let ?a = "numSequencedTransactions c"
  from Cons.prems have len: "length (take ?a sl) = ?a" and rest: "total_sequenced cs \<le> length (drop ?a sl)"
    by simp_all
  from Cons.IH [OF rest] len show ?case
    by (simp add: plan_sequencer_entries plan_provisional_entries origin_plan_def)
qed

lemma filter_l1_sequencer_entries [simp]:
  "filter (\<lambda>e. te_queueOrigin e = ''l1'') (sequencer_entries L ex c ti ss) = []"
  by (induction ss arbitrary: ti) (simp_all add: sequencer_entry_def)

lemma filter_l1_provisional_entries [simp]:
  "filter (\<lambda>e. te_queueOrigin e = ''l1'') (provisional_entries ex ti q k) =
     provisional_entries ex ti q k"
  by (induction k arbitrary: ti q) (simp_all add: provisional_entry_def)

lemma queueIndex_provisional_entries:
  "map te_queueIndex (provisional_entries ex ti q k) = map Some [q ..< q + k]"
proof (induction k arbitrary: ti q)
  case 0
  then show ?case by simp
next
  case (Suc k)
  from Suc.IH [of "Suc ti" "Suc q"] upt_head [of q k]
  show ?case
    by (simp add: provisional_entry_def)
qed

lemma queueIndex_assemble:
  "map te_queueIndex (filter (\<lambda>e. te_queueOrigin e = ''l1'') (assemble L q ex cs ti ec sl)) =
     map Some [q + ec ..< q + ec + total_queued cs]"
proof (induction cs arbitrary: ti ec sl)
  case Nil
  then show ?case by simp
next
  case (Cons c cs)
  let ?b = "numSubsequentQueueTransactions c"
  have "map te_queueIndex (filter (\<lambda>e. te_queueOrigin e = ''l1'') (assemble L q ex (c # cs) ti ec sl)) =
          map Some ([q + ec ..< q + ec + ?b] @ [q + ec + ?b ..< q + ec + ?b + total_queued cs])"
    using Cons.IH [of "ti + numSequencedTransactions c + ?b" "ec + ?b"]
    by (simp add: queueIndex_provisional_entries add.assoc)
  also have "\<dots> = map Some [q + ec ..< q + ec + ?b + total_queued cs]"
    by (simp only: upt_append_le le_add1)
  finally show ?case
    by (simp add: add.assoc)
qed

lemma length_filter_l1_assemble:
  "length (filter (\<lambda>e. te_queueOrigin e = ''l1'') (assemble L q ex cs ti ec sl)) = total_queued cs"
  using arg_cong [OF queueIndex_assemble [of L q ex cs ti ec sl], of length]
  by simp

lemma sequencer_entries_cases:
  "x \<in> set (sequencer_entries L ex c i ss) \<Longrightarrow> \<exists>j s. x = sequencer_entry L ex c j s"
  by (induction ss arbitrary: i) auto

lemma provisional_entries_cases:
  "x \<in> set (provisional_entries ex i k n) \<Longrightarrow> \<exists>j m. x = provisional_entry ex j m"
  by (induction n arbitrary: i k) auto

lemma assemble_cases:
  "e \<in> set (assemble L q ex cs ti ec sl) \<Longrightarrow>
   (\<exists>c i s. e = sequencer_entry L ex c i s) \<or> (\<exists>i k. e = provisional_entry ex i k)"
proof (induction cs arbitrary: ti ec sl)
  case Nil
  then show ?case by simp
next
  case (Cons c cs)
  from Cons.prems consider
      "e \<in> set (sequencer_entries L ex c ti (take (numSequencedTransactions c) sl))"
    | "e \<in> set (provisional_entries ex (ti + numSequencedTransactions c) (q + ec)
                   (numSubsequentQueueTransactions c))"
    | "e \<in> set (assemble L q ex cs
                   (ti + numSequencedTransactions c + numSubsequentQueueTransactions c)
                   (ec + numSubsequentQueueTransactions c)
                   (drop (numSequencedTransactions c) sl))"
    by auto
  then show ?case
  proof cases
    case 1
    from sequencer_entries_cases [OF 1] show ?thesis by blast
  next
    case 2
    from provisional_entries_cases [OF 2] show ?thesis by blast
  next
    case 3
    from Cons.IH [OF 3] show ?thesis .
  qed
qed

lemma nth_of_filter_position:
  assumes "i < length xs" and "P (xs ! i)"
  shows "filter P xs ! length (filter P (take i xs)) = xs ! i \<and>
         length (filter P (take i xs)) < length (filter P xs)"
proof -
  have "xs = take i xs @ xs ! i # drop (Suc i) xs"
    using assms(1) by (simp add: id_take_nth_drop)
  then have "filter P xs = filter P (take i xs) @ xs ! i # filter P (drop (Suc i) xs)"
    using assms(2) by (metis filter.simps(2) filter_append)
  then show ?thesis
    by (simp add: nth_append)
qed

lemma store_loop_eq:
  "store_loop es db =
     db @ map (\<lambda>e. putTransactionIndexByQueueIndex (te_queueIndex e) (te_index e))
            (filter (\<lambda>e. te_queueOrigin e = ''l1'') es)"
  by (induction es arbitrary: db) simp_all

lemma data_sequencer_entries:
  "map te_data (sequencer_entries L ex c ti ss) = map (toHexString L) ss"
  by (induction ss arbitrary: ti) (simp_all add: sequencer_entry_def)

lemma filter_seq_sequencer_entries [simp]:
  "filter (\<lambda>e. te_queueOrigin e = ''sequencer'') (sequencer_entries L ex c ti ss) =
     sequencer_entries L ex c ti ss"
  by (induction ss arbitrary: ti) (simp_all add: sequencer_entry_def)

lemma filter_seq_provisional_entries [simp]:
  "filter (\<lambda>e. te_queueOrigin e = ''sequencer'') (provisional_entries ex ti q k) = []"
  by (induction k arbitrary: ti q) (simp_all add: provisional_entry_def)

lemma data_assemble:
  "map te_data (filter (\<lambda>e. te_queueOrigin e = ''sequencer'') (assemble L q ex cs ti ec sl)) =
     map (toHexString L) (take (total_sequenced cs) sl)"
proof (induction cs arbitrary: ti ec sl)
  case Nil
  then show ?case by simp
next
  case (Cons c cs)
  let ?a = "numSequencedTransactions c"
  have "take (?a + total_sequenced cs) sl = take ?a sl @ take (total_sequenced cs) (drop ?a sl)"
    by (simp add: take_add)
  with Cons.IH [of "ti + ?a + numSubsequentQueueTransactions c"
                   "ec + numSubsequentQueueTransactions c" "drop ?a sl"]
  show ?case
    by (simp add: data_sequencer_entries)
qed

section \<open>Reading numbers and slices from the payload\<close>

lemma foldl_be_uint_from:
  "foldl (\<lambda>acc x. acc * 256 + unat x) a bs = a * 256 ^ length bs + be_uint bs"
  by (induction bs rule: rev_induct) (simp_all add: be_uint_snoc algebra_simps)

lemma be_uint_Cons: "be_uint (x # xs) = unat x * 256 ^ length xs + be_uint xs"
  using foldl_be_uint_from [of "unat x" xs] foldl_be_uint [of "x # xs"]
  by simp

lemma be_uint_bound: "be_uint bs < 256 ^ length bs"
proof (induction bs rule: rev_induct)
  case Nil
  then show ?case by simp
next
  case (snoc x xs)
  have "unat x < 256"
    using unsigned_less [of x, where ?'a = nat] by simp
  with snoc show ?case
    by (simp add: be_uint_snoc)
qed

lemma be_uint_3_bound: "be_uint (bytes_at cd a (a + 3)) < 2 ^ 53"
proof -
  have "length (bytes_at cd a (a + 3)) \<le> 3"
    by (simp add: length_bytes_at)
  then have "(256::nat) ^ length (bytes_at cd a (a + 3)) \<le> 256 ^ 3"
    by (intro power_increasing) simp_all
  with be_uint_bound [of "bytes_at cd a (a + 3)"] show ?thesis
    by simp
qed

lemma parseSequencerBatchTransaction_in_range:
  assumes "offset < length cd"
  shows "parseSequencerBatchTransaction cd offset =
           Inr (bytes_at cd (offset + 3) (offset + 3 + be_uint (bytes_at cd offset (offset + 3))))"
proof -
  have "bytes_at cd offset (offset + 3) \<noteq> []"
    using assms by (simp add: bytes_at_Nil_iff)
  then have "bindE (BigNumber_from_buffer (buffer_slice cd offset (offset + 3))) toNumber =
               Inr (be_uint (bytes_at cd offset (offset + 3)))"
    using be_uint_3_bound [of cd offset]
    by (simp add: buffer_slice_bytes_at BigNumber_from_buffer_def foldl_be_uint toNumber_def)
  then show ?thesis
    by (simp add: parseSequencerBatchTransaction_def buffer_slice_bytes_at)
qed

lemma parseSequencerBatchTransaction_past_end:
  assumes "length cd \<le> offset"
  shows "parseSequencerBatchTransaction cd offset = Inl InvalidBigNumber"
proof -
  have "bytes_at cd offset (offset + 3) = []"
    using assms by (simp add: bytes_at_Nil_iff)
  then show ?thesis
    by (simp add: parseSequencerBatchTransaction_def buffer_slice_bytes_at BigNumber_from_buffer_def)
qed

lemma be_uint_eval:
  "be_uint [a, b, c] = unat a * 65536 + unat b * 256 + unat c"
  by (simp add: be_uint_Cons)

lemma read_uint_ok:
  assumes "a < b" and "a < length cd" and "b - a \<le> 6"
  shows "bindE (BigNumber_from_buffer (buffer_slice cd a b)) toNumber =
           Inr (be_uint (bytes_at cd a b))"
proof -
  have ne: "bytes_at cd a b \<noteq> []"
    using assms by (simp add: bytes_at_Nil_iff)
  have "length (bytes_at cd a b) \<le> 6"
    using assms by (simp add: length_bytes_at)
  then have "(256::nat) ^ length (bytes_at cd a b) \<le> 256 ^ 6"
    by (intro power_increasing) simp_all
  with be_uint_bound [of "bytes_at cd a b"] have "be_uint (bytes_at cd a b) < 2 ^ 53"
    by simp
  with ne show ?thesis
    by (simp add: buffer_slice_bytes_at BigNumber_from_buffer_def foldl_be_uint toNumber_def)
qed

lemma be_uint_5_bound: "be_uint (bytes_at cd a (a + 5)) < 2 ^ 53 - 1"
proof -
  have "length (bytes_at cd a (a + 5)) \<le> 5"
    by (simp add: length_bytes_at)
  then have "(256::nat) ^ length (bytes_at cd a (a + 5)) \<le> 256 ^ 5"
    by (intro power_increasing) simp_all
  with be_uint_bound [of "bytes_at cd a (a + 5)"] show ?thesis
    by simp
qed

lemma read_context_bounds:
  "ctx_timestamp (read_context cd i) < 2 ^ 53 - 1"
  "ctx_blockNumber (read_context cd i) < 2 ^ 53 - 1"
  using be_uint_5_bound [of cd "15 + 16 * i + 6"] be_uint_5_bound [of cd "15 + 16 * i + 11"]
  by (simp_all add: read_context_def add.assoc)

lemma parseSequencerBatchContext_ok:
  assumes "15 + 16 * i + 11 < length cd"
  shows "parseSequencerBatchContext cd (15 + 16 * i) = Inr (read_context cd i)"
proof -
  let ?o = "15 + 16 * i"
  have r: "bindE (BigNumber_from_buffer (buffer_slice cd ?o (?o + 3))) toNumber =
             Inr (be_uint (bytes_at cd ?o (?o + 3)))"
          "bindE (BigNumber_from_buffer (buffer_slice cd (?o + 3) (?o + 6))) toNumber =
             Inr (be_uint (bytes_at cd (?o + 3) (?o + 6)))"
          "bindE (BigNumber_from_buffer (buffer_slice cd (?o + 6) (?o + 11))) toNumber =
             Inr (be_uint (bytes_at cd (?o + 6) (?o + 11)))"
          "bindE (BigNumber_from_buffer (buffer_slice cd (?o + 11) (?o + 16))) toNumber =
             Inr (be_uint (bytes_at cd (?o + 11) (?o + 16)))"
    using assms by (simp_all add: read_uint_ok)
  show ?thesis
    unfolding parseSequencerBatchContext_def r
    by (simp add: read_context_def)
qed

lemma sequenced_step_ok:
  assumes "nextTxPointer st < length cd"
    and "Suc (ex_prevTotalElements ex + transactionIndex st) < 2 ^ 53"
    and "ex_batchIndex ex < 2 ^ 53"
    and "ctx_blockNumber c < 2 ^ 53 - 1"
    and "ctx_timestamp c < 2 ^ 53 - 1"
    and "ex_gasLimit ex < 2 ^ 53 - 1"
  shows "\<exists>st'. sequenced_step L ex cd c st = Inr st'"
  using assms
  by (simp add: sequenced_step_def parseSequencerBatchTransaction_in_range
      BigNumber_from_number_def toNumber_def Let_def)

lemma queue_step_ok:
  assumes "Suc (ex_prevTotalElements ex + transactionIndex st) < 2 ^ 53"
    and "Suc (ev_startingQueueIndex event + enqueuedCount st) < 2 ^ 53"
    and "ex_batchIndex ex < 2 ^ 53"
  shows "\<exists>st'. queue_step event ex st = Inr st'"
  using assms
  by (simp add: queue_step_def BigNumber_from_number_def toNumber_def Let_def)

lemma sequenced_loop_ok:
  "reads_ok cd (nextTxPointer st) (numSequencedTransactions c - j) \<Longrightarrow>
   ex_prevTotalElements ex + (transactionIndex st + (numSequencedTransactions c - j)) < 2 ^ 53 \<Longrightarrow>
   ex_batchIndex ex < 2 ^ 53 \<Longrightarrow>
   ctx_blockNumber c < 2 ^ 53 - 1 \<Longrightarrow>
   ctx_timestamp c < 2 ^ 53 - 1 \<Longrightarrow>
   ex_gasLimit ex < 2 ^ 53 - 1 \<Longrightarrow>
   \<exists>st'. sequenced_loop L ex cd c j st = Inr st'"
proof (induction L ex cd c j st rule: sequenced_loop.induct)
  case (1 L ex cd c j st)
  show ?case
  proof (cases "j < numSequencedTransactions c")
    case False
    then show ?thesis
      by (simp add: sequenced_loop.simps [of L ex cd c j st])
  next
    case True
    then have k: "numSequencedTransactions c - j = Suc (numSequencedTransactions c - (j + 1))"
      by simp
    let ?s = "bytes_at cd (nextTxPointer st + 3)
                (nextTxPointer st + 3 + be_uint (bytes_at cd (nextTxPointer st) (nextTxPointer st + 3)))"
    from "1.prems"(1) have p: "nextTxPointer st < length cd"
      and ok: "reads_ok cd (nextTxPointer st + 3 + length ?s) (numSequencedTransactions c - (j + 1))"
      unfolding k by simp_all
    from "1.prems"(2) True
    have b: "Suc (ex_prevTotalElements ex + transactionIndex st) < 2 ^ 53"
      by simp
    from sequenced_step_ok [OF p b "1.prems"(3,4,5,6)] obtain st1 where
      step: "sequenced_step L ex cd c st = Inr st1"
      by blast
    from sequenced_step_Inr [OF step] obtain s where
      s: "parseSequencerBatchTransaction cd (nextTxPointer st) = Inr s"
      and st1: "st1 = st\<lparr> transactionEntries := transactionEntries st @
                          [sequencer_entry L ex c (transactionIndex st) s],
                       nextTxPointer := nextTxPointer st + (3 + length s),
                       transactionIndex := transactionIndex st + 1 \<rparr>"
      by blast
    have seq: "s = ?s"
      using parseSequencerBatchTransaction_Inr [OF s] by simp
    have ok1: "reads_ok cd (nextTxPointer st1) (numSequencedTransactions c - (j + 1))"
      using ok by (simp add: st1 seq add.assoc)
    have b1: "ex_prevTotalElements ex +
                (transactionIndex st1 + (numSequencedTransactions c - (j + 1))) < 2 ^ 53"
      using "1.prems"(2) True by (simp add: st1)
    from "1.IH" [OF True ok1 b1 "1.prems"(3,4,5,6)] obtain st' where
      "sequenced_loop L ex cd c (j + 1) st1 = Inr st'"
      by blast
    with step True show ?thesis
      by (simp add: sequenced_loop.simps [of L ex cd c j st])
  qed
qed

lemma queue_loop_ok:
  "ex_prevTotalElements ex + (transactionIndex st + (numSubsequentQueueTransactions c - j)) < 2 ^ 53 \<Longrightarrow>
   ev_startingQueueIndex event + (enqueuedCount st + (numSubsequentQueueTransactions c - j)) < 2 ^ 53 \<Longrightarrow>
   ex_batchIndex ex < 2 ^ 53 \<Longrightarrow>
   \<exists>st'. queue_loop event ex c j st = Inr st'"
proof (induction event ex c j st rule: queue_loop.induct)
  case (1 event ex c j st)
  show ?case
  proof (cases "j < numSubsequentQueueTransactions c")
    case False
    then show ?thesis
      by (simp add: queue_loop.simps [of event ex c j st])
  next
    case True
    from "1.prems"(1,2) True
    have b: "Suc (ex_prevTotalElements ex + transactionIndex st) < 2 ^ 53"
      and q: "Suc (ev_startingQueueIndex event + enqueuedCount st) < 2 ^ 53"
      by simp_all
    from queue_step_ok [OF b q "1.prems"(3)] obtain st1 where
      step: "queue_step event ex st = Inr st1"
      by blast
    note st1 = queue_step_Inr [OF step]
    have b1: "ex_prevTotalElements ex +
                (transactionIndex st1 + (numSubsequentQueueTransactions c - (j + 1))) < 2 ^ 53"
      and q1: "ev_startingQueueIndex event +
                (enqueuedCount st1 + (numSubsequentQueueTransactions c - (j + 1))) < 2 ^ 53"
      using "1.prems"(1,2) True by (simp_all add: st1)
    from "1.IH" [OF True b1 q1 "1.prems"(3)] obtain st' where
      "queue_loop event ex c (j + 1) st1 = Inr st'"
      by blast
    with step True show ?thesis
      by (simp add: queue_loop.simps [of event ex c j st])
  qed
qed

lemma context_loop_ok:
  "15 + 16 * n \<le> length cd \<Longrightarrow>
   reads_ok cd (nextTxPointer st) (total_sequenced (map (read_context cd) [i..<n])) \<Longrightarrow>
   ex_prevTotalElements ex +
     (transactionIndex st + total_elements (map (read_context cd) [i..<n])) < 2 ^ 53 \<Longrightarrow>
   ev_startingQueueIndex event +
     (enqueuedCount st + total_queued (map (read_context cd) [i..<n])) < 2 ^ 53 \<Longrightarrow>
   ex_batchIndex ex < 2 ^ 53 \<Longrightarrow>
   ex_gasLimit ex < 2 ^ 53 - 1 \<Longrightarrow>
   \<exists>st'. context_loop L event ex cd n i st = Inr st'"
proof (induction L event ex cd n i st rule: context_loop.induct)
  case (1 L event ex cd n i st)
  show ?case
  proof (cases "i < n")
    case False
    then show ?thesis
      by (simp add: context_loop.simps [of L event ex cd n i st])
  next
    case True
    let ?c = "read_context cd i"
    let ?rest = "map (read_context cd) [i + 1..<n]"
    have upt: "[i..<n] = i # [i + 1..<n]"
      using True by (simp add: upt_conv_Cons)
    have c: "parseSequencerBatchContext cd (15 + 16 * i) = Inr ?c"
      using True "1.prems"(1) by (intro parseSequencerBatchContext_ok) simp
    from "1.prems"(2)
    have r1: "reads_ok cd (nextTxPointer st) (numSequencedTransactions ?c - 0)"
      and r2: "reads_ok cd (cursor_after cd (nextTxPointer st) (numSequencedTransactions ?c))
                 (total_sequenced ?rest)"
      by (simp_all add: upt reads_ok_add)
    from "1.prems"(3)
    have b: "ex_prevTotalElements ex +
               (transactionIndex st + numSequencedTransactions ?c +
                numSubsequentQueueTransactions ?c + total_elements ?rest) < 2 ^ 53"
      by (simp add: upt add.assoc)
    from "1.prems"(4)
    have q: "ev_startingQueueIndex event +
               (enqueuedCount st + numSubsequentQueueTransactions ?c + total_queued ?rest) < 2 ^ 53"
      by (simp add: upt add.assoc)
    from b have b1: "ex_prevTotalElements ex +
               (transactionIndex st + (numSequencedTransactions ?c - 0)) < 2 ^ 53"
      by simp
    from sequenced_loop_ok [OF r1 b1 "1.prems"(5) read_context_bounds(2) read_context_bounds(1)
        "1.prems"(6)]
    obtain st1 where l1: "sequenced_loop L ex cd ?c 0 st = Inr st1"
      by blast
    note s1 = sequenced_loop_Inr [OF l1]
    from b s1 have b2: "ex_prevTotalElements ex +
               (transactionIndex st1 + (numSubsequentQueueTransactions ?c - 0)) < 2 ^ 53"
      by simp
    from q s1 have q2: "ev_startingQueueIndex event +
               (enqueuedCount st1 + (numSubsequentQueueTransactions ?c - 0)) < 2 ^ 53"
      by simp
    from queue_loop_ok [OF b2 q2 "1.prems"(5)]
    obtain st2 where l2: "queue_loop event ex ?c 0 st1 = Inr st2"
      by blast
    note s2 = queue_loop_Inr [OF l2]
    have r3: "reads_ok cd (nextTxPointer st2) (total_sequenced ?rest)"
      using r2 s1 s2 by simp
    have b3: "ex_prevTotalElements ex + (transactionIndex st2 + total_elements ?rest) < 2 ^ 53"
      using b s1 s2 by (simp add: add.assoc)
    have q3: "ev_startingQueueIndex event + (enqueuedCount st2 + total_queued ?rest) < 2 ^ 53"
      using q s1 s2 by (simp add: add.assoc)
    from "1.IH" [OF True refl "1.prems"(1) r3 b3 q3 "1.prems"(5,6)]
    obtain st' where "context_loop L event ex cd n (i + 1) st2 = Inr st'"
      by blast
    with c l1 l2 True show ?thesis
      by (simp add: context_loop.simps [of L event ex cd n i st] Let_def)
  qed
qed

lemma uint_at_Some:
  "uint_at cd a b = Some v \<Longrightarrow> b \<le> length cd \<and> v = be_uint (bytes_at cd a b)"
  by (simp add: uint_at_def bytes_at_def split: if_splits)

lemma layout_context_Some:
  assumes "layout_context cd i = Some c"
  shows "15 + 16 * i + 16 \<le> length cd \<and> c = read_context cd i"
proof -
  from assms obtain a b t n where
    a: "uint_at cd (15 + 16 * i + 0) (15 + 16 * i + 3) = Some a"
    and b: "uint_at cd (15 + 16 * i + 3) (15 + 16 * i + 6) = Some b"
    and t: "uint_at cd (15 + 16 * i + 6) (15 + 16 * i + 11) = Some t"
    and n: "uint_at cd (15 + 16 * i + 11) (15 + 16 * i + 16) = Some n"
    and c: "c = \<lparr> numSequencedTransactions = a, numSubsequentQueueTransactions = b,
                 ctx_timestamp = t, ctx_blockNumber = n \<rparr>"
    unfolding layout_context_def Let_def bind_eq_Some_conv
    by auto
  from uint_at_Some [OF a] uint_at_Some [OF b] uint_at_Some [OF t] uint_at_Some [OF n]
  show ?thesis
    by (simp add: c read_context_def)
qed

lemma layout_context_list_Some:
  "layout_context_list cd i k = Some cs \<Longrightarrow>
   cs = map (read_context cd) [i..<i + k] \<and> (0 < k \<longrightarrow> 15 + 16 * (i + k) \<le> length cd)"
proof (induction k arbitrary: i cs)
  case 0
  then show ?case by simp
next
  case (Suc k)
  from Suc.prems obtain c rest where
    c: "layout_context cd i = Some c"
    and rest: "layout_context_list cd (Suc i) k = Some rest"
    and cs: "cs = c # rest"
    by (auto simp: bind_eq_Some_conv)
  note ih = Suc.IH [OF rest]
  note ctx = layout_context_Some [OF c]
  have u: "[i..<i + Suc k] = i # [Suc i..<Suc i + k]"
    by (simp add: upt_conv_Cons)
  have a: "cs = map (read_context cd) [i..<i + Suc k]"
    unfolding u using ih ctx by (simp add: cs)
  have b: "15 + 16 * (i + Suc k) \<le> length cd"
  proof (cases "k = 0")
    case True
    with ctx show ?thesis by simp
  next
    case False
    with ih show ?thesis by simp
  qed
  from a b show ?case
    by blast
qed

lemma layout_slices_Some:
  "layout_slices cd p k = Some raws \<Longrightarrow> reads_ok cd p k \<and> cursor_slices cd p k = raws"
proof (induction k arbitrary: p raws)
  case 0
  then show ?case by simp
next
  case (Suc k)
  from Suc.prems obtain l rest where
    l: "uint_at cd p (p + 3) = Some l"
    and fits: "p + 3 + l \<le> length cd"
    and rest: "layout_slices cd (p + 3 + l) k = Some rest"
    and raws: "raws = take l (drop (p + 3) cd) # rest"
    by (auto simp: bind_eq_Some_conv split: if_splits)
  from uint_at_Some [OF l] have p: "p + 3 \<le> length cd"
    and leq: "l = be_uint (bytes_at cd p (p + 3))"
    by simp_all
  have s: "bytes_at cd (p + 3) (p + 3 + l) = take l (drop (p + 3) cd)"
    by (simp add: bytes_at_def)
  have len: "min (length cd - (p + 3)) l = l"
    using fits by simp
  from Suc.IH [OF rest] p show ?case
    by (simp add: Let_def leq [symmetric] s len raws)
qed

lemma layout_decode_Some:
  assumes "layout_decode cd = Some (cs, raws)"
  shows "15 \<le> length cd \<and> 15 + 16 * read_numContexts cd \<le> length cd \<and>
         cs = read_contexts cd \<and>
         reads_ok cd (15 + 16 * read_numContexts cd) (total_sequenced cs) \<and>
         cursor_slices cd (15 + 16 * read_numContexts cd) (total_sequenced cs) = raws"
proof -
  from assms obtain n where
    n: "uint_at cd 12 15 = Some n"
    and cs: "layout_context_list cd 0 n = Some cs"
    and raws: "layout_slices cd (15 + 16 * n) (total_sequenced cs) = Some raws"
    by (auto simp: layout_decode_def layout_numContexts_def bind_eq_Some_conv)
  from uint_at_Some [OF n] have len: "15 \<le> length cd" and neq: "n = read_numContexts cd"
    by (simp_all add: read_numContexts_def)
  from layout_context_list_Some [OF cs] len
  have "15 + 16 * n \<le> length cd" and "cs = map (read_context cd) [0..<n]"
    by (cases n; simp)+
  with layout_slices_Some [OF raws] len show ?thesis
    by (simp add: neq read_contexts_def)
qed

lemma parseEvent_ok:
  assumes "layout_decode (fromHexString L (ex_l1TransactionData ex)) = Some (cs, raws)"
    and "numbers_fit event ex cs"
  shows "parseEvent L event ex =
           Inr \<lparr> out_transactionBatchEntry =
                   \<lparr> tbe_index = ex_batchIndex ex,
                     tbe_root = ex_batchRoot ex,
                     tbe_size = ex_batchSize ex,
                     tbe_prevTotalElements = ex_prevTotalElements ex,
                     tbe_extraData = ex_batchExtraData ex,
                     tbe_blockNumber = ex_blockNumber ex,
                     tbe_timestamp = ex_timestamp ex,
                     tbe_submitter = ex_submitter ex,
                     tbe_l1TransactionHash = ex_l1TransactionHash ex \<rparr>,
                 out_transactionEntries =
                   assemble L (ev_startingQueueIndex event) ex cs 0 0 raws \<rparr>"
proof -
  let ?cd = "fromHexString L (ex_l1TransactionData ex)"
  let ?n = "read_numContexts ?cd"
  let ?st0 = "\<lparr> transactionEntries = [], transactionIndex = 0, enqueuedCount = 0,
                nextTxPointer = 15 + 16 * ?n \<rparr>"
  note d = layout_decode_Some [OF assms(1)]
  from d have cs: "cs = map (read_context ?cd) [0..<?n]"
    by (simp add: read_contexts_def)
  have n: "bindE (BigNumber_from_buffer (buffer_slice ?cd 12 15)) toNumber = Inr ?n"
    using d by (simp add: read_uint_ok read_numContexts_def)
  from assms(2) have f: "ex_prevTotalElements ex + total_elements cs < 2 ^ 53"
    "ev_startingQueueIndex event + total_queued cs < 2 ^ 53"
    "ex_batchIndex ex < 2 ^ 53" "ex_batchSize ex < 2 ^ 53"
    "ex_blockNumber ex < 2 ^ 53 - 1" "ex_timestamp ex < 2 ^ 53 - 1"
    "ex_gasLimit ex < 2 ^ 53 - 1"
    by (simp_all add: numbers_fit_def)
  have r: "15 + 16 * ?n \<le> length ?cd"
    "reads_ok ?cd (15 + 16 * ?n) (total_sequenced (map (read_context ?cd) [0..<?n]))"
    using d by (auto simp: read_contexts_def)
  have "\<exists>st. context_loop L event ex ?cd ?n 0 ?st0 = Inr st"
    using r f by (intro context_loop_ok) (simp_all add: cs)
  then obtain st where loop: "context_loop L event ex ?cd ?n 0 ?st0 = Inr st"
    by blast
  from d have dcs: "cs = read_contexts ?cd"
    and draws: "cursor_slices ?cd (15 + 16 * ?n) (total_sequenced (read_contexts ?cd)) = raws"
    by auto
  from context_loop_Inr [OF loop]
  have "transactionEntries st =
          assemble L (ev_startingQueueIndex event) ex (read_contexts ?cd) 0 0
            (cursor_slices ?cd (15 + 16 * ?n) (total_sequenced (read_contexts ?cd)))"
    by (simp add: read_contexts_def)
  then have entries:
    "transactionEntries st = assemble L (ev_startingQueueIndex event) ex cs 0 0 raws"
    by (simp add: draws dcs)
  from f have p: "ex_prevTotalElements ex < 2 ^ 53"
    by simp
  show ?thesis
    using f p
    by (simp add: parseEvent_def Let_def n loop entries toNumber_def BigNumber_from_number_def)
qed

section \<open>Evaluation on the example data\<close>

lemma hex_value_simps:
  "hex_value CHR ''0'' = Some 0" "hex_value CHR ''1'' = Some 1" "hex_value CHR ''2'' = Some 2"
  "hex_value CHR ''3'' = Some 3" "hex_value CHR ''4'' = Some 4" "hex_value CHR ''5'' = Some 5"
  "hex_value CHR ''6'' = Some 6" "hex_value CHR ''7'' = Some 7" "hex_value CHR ''8'' = Some 8"
  "hex_value CHR ''9'' = Some 9"
  by (simp_all add: hex_value_def)

lemma demo_calldata_bytes:
  "fromHexString demo_lib demo_calldata =
     [0,0,0,0,0,0,0,0,0,0,0,0, 0,0,2,
      0,0,2, 0,0,1, 0,0,0,0,100, 0,0,0,0,5,
      0,0,1, 0,0,2, 0,0,0,0,101, 0,0,0,0,6,
      0,0,2, 9,1, 0,0,2, 1,5, 0,0,1, 7]"
  by (simp add: demo_lib_def demo_calldata_def hex_value_simps)

lemma demo_truncated_bytes:
  "fromHexString demo_lib demo_truncated_calldata =
     [0,0,0,0,0,0,0,0,0,0,0,0, 0,0,1, 0,0,1, 0,0,0, 0,0,0,0,100, 0,0,0,0,5, 0,0,5, 9,7]"
  by (simp add: demo_lib_def demo_truncated_calldata_def hex_value_simps)


lemma demo_decode_unknown:
  "maybeDecodeSequencerBatchTransaction demo_lib [9, 1] = \<lparr> decoded = None, type = None \<rparr>"
  "maybeDecodeSequencerBatchTransaction demo_lib [7] = \<lparr> decoded = None, type = None \<rparr>"
  "maybeDecodeSequencerBatchTransaction demo_lib [9, 7] = \<lparr> decoded = None, type = None \<rparr>"
  by (simp_all add: maybeDecodeSequencerBatchTransaction_def try_block_def readUInt8_def
      buffer_slice_def demo_lib_def Let_def)

lemma demo_decode_eth_sign:
  "maybeDecodeSequencerBatchTransaction demo_lib [1, 5] =
     \<lparr> decoded = None, type = Some ''ETH_SIGN'' \<rparr>"
  by (rule maybeDecode_EthSign) (simp_all add: demo_lib_def)

lemma demo_toHexString:
  "toHexString demo_lib [9, 1] = ''0x0901''" "toHexString demo_lib [1, 5] = ''0x0105''"
  "toHexString demo_lib [7] = ''0x07''" "toHexString demo_lib [9, 7] = ''0x0907''"
  by (simp_all add: demo_lib_def buffer_toString_hex_def hex_digit_def)

lemmas parseEvent_unfold =
  parseEvent_def context_loop.simps sequenced_loop.simps queue_loop.simps
  sequenced_step_def queue_step_def
  parseSequencerBatchContext_def parseSequencerBatchTransaction_def
  buffer_slice_def BigNumber_from_buffer_def BigNumber_from_number_def toNumber_def
  demo_decode_unknown demo_decode_eth_sign demo_toHexString
  demo_extra_def demo_event_def demo_batch_entry_def demo_entries_def
  demo_sequencer_entry_def demo_queue_entry_def Let_def

lemma demo_parseEvent:
  "parseEvent demo_lib (demo_event ''0xbb'' 7) (demo_extra demo_calldata b) =
     Inr \<lparr> out_transactionBatchEntry = demo_batch_entry b, out_transactionEntries = demo_entries \<rparr>"
  if "b < 2 ^ 53"
  using that by (simp add: parseEvent_unfold demo_calldata_bytes)

lemma demo_truncated_parseEvent:
  "parseEvent demo_lib (demo_event ''0xbb'' 7) (demo_extra demo_truncated_calldata 1) =
     Inr \<lparr> out_transactionBatchEntry = demo_batch_entry 1,
           out_transactionEntries = [demo_sequencer_entry 10 100 5 ''0x0907'' None] \<rparr>"
  by (simp add: parseEvent_unfold demo_truncated_bytes)


lemma be_uint_eval2: "be_uint [a, b] = unat a * 256 + unat b"
  and be_uint_eval1: "be_uint [a] = unat a"
  and be_uint_eval5:
    "be_uint [a, b, c, d, e] =
       unat a * 4294967296 + unat b * 16777216 + unat c * 65536 + unat d * 256 + unat e"
  by (simp_all add: be_uint_Cons)

lemma layout_context_list_numeral:
  "layout_context_list cd i (numeral k) =
     Option.bind (layout_context cd i) (\<lambda>c.
     map_option (\<lambda>cs. c # cs) (layout_context_list cd (Suc i) (pred_numeral k)))"
  by (simp add: numeral_eq_Suc)

lemma layout_slices_numeral:
  "layout_slices cd p (numeral k) =
     Option.bind (uint_at cd p (p + 3)) (\<lambda>l.
     if p + 3 + l \<le> length cd
     then map_option (\<lambda>rest. take l (drop (p + 3) cd) # rest)
            (layout_slices cd (p + 3 + l) (pred_numeral k))
     else None)"
  by (simp add: numeral_eq_Suc)

lemmas layout_unfold =
  layout_decode_def layout_numContexts_def layout_context_def uint_at_def
  layout_context_list_numeral layout_slices_numeral
  be_uint_eval be_uint_eval5 total_sequenced_def Let_def

lemma demo_layout_decode:
  "layout_decode (fromHexString demo_lib demo_calldata) = Some (demo_contexts, demo_slices)"
  by (simp add: demo_calldata_bytes layout_unfold demo_contexts_def demo_slices_def)

lemma demo_truncated_layout_decode:
  "layout_decode (fromHexString demo_lib demo_truncated_calldata) = None"
  by (simp add: demo_truncated_bytes layout_unfold)


lemma demo_numbers_fit:
  "numbers_fit (demo_event ''0xbb'' 7) (demo_extra demo_calldata b) demo_contexts" if "b < 2 ^ 53"
  using that
  by (simp add: numbers_fit_def demo_event_def demo_extra_def demo_contexts_def)

lemma demo_assemble:
  "assemble demo_lib 3 (demo_extra demo_calldata b) demo_contexts 0 0 demo_slices = demo_entries"
  by (simp add: demo_contexts_def demo_slices_def demo_entries_def demo_extra_def
      sequencer_entry_def provisional_entry_def demo_sequencer_entry_def demo_queue_entry_def
      demo_decode_unknown demo_decode_eth_sign demo_toHexString numeral_2_eq_2)

section \<open>Properties of parseEvent\<close>

lemma layout_decode_length:
  "layout_decode cd = Some (cs, raws) \<Longrightarrow> length raws = total_sequenced cs"
  using layout_decode_Some [of cd cs raws] length_cursor_slices by auto

lemma length_filter_seq_assemble:
  "total_sequenced cs \<le> length sl \<Longrightarrow>
   length (filter (\<lambda>e. te_queueOrigin e = ''sequencer'') (assemble L q ex cs ti ec sl)) =
     total_sequenced cs"
  using arg_cong [OF data_assemble [of L q ex cs ti ec sl], of length]
  by simp

lemma reads_ok_not_overrun:
  "reads_ok cd p k \<Longrightarrow> Suc j < k \<Longrightarrow> \<not> overruns cd (cursor_after cd p j)"
proof (induction j arbitrary: p k)
  case 0
  then obtain k' where k: "k = Suc (Suc k')"
    by (cases k) (simp, rename_tac m, case_tac m, simp_all)
  let ?l = "be_uint (bytes_at cd p (p + 3))"
  let ?s = "bytes_at cd (p + 3) (p + 3 + ?l)"
  from "0.prems"(1) have "p + 3 + length ?s < length cd"
    by (simp add: k)
  then show ?case
    by (auto simp: overruns_def length_bytes_at min_def split: if_splits)
next
  case (Suc j)
  then obtain k' where k: "k = Suc k'"
    by (cases k) simp_all
  from Suc.prems have "reads_ok cd
      (p + 3 + length (bytes_at cd (p + 3) (p + 3 + be_uint (bytes_at cd p (p + 3))))) k'"
    and "Suc j < k'"
    by (simp_all add: k)
  from Suc.IH [OF this] show ?case
    by simp
qed




lemma parseEvent_ok_entries:
  assumes "layout_decode (fromHexString L (ex_l1TransactionData ex)) = Some (cs, raws)"
    and "numbers_fit event ex cs"
  shows "\<exists>res. parseEvent L event ex = Inr res \<and>
           out_transactionEntries res = assemble L (ev_startingQueueIndex event) ex cs 0 0 raws"
  using parseEvent_ok [OF assms] by simp

text \<open>
  C2: whenever \<^verbatim>\<open>parseEvent\<close> returns, on any input, its entries are ordered as the contexts that
  it has read from the calldata, at offsets 15, 31, \<dots> in this order: for each context its
  sequencer-origin entries, as many as \<open>numSequencedTransactions\<close> and with the context's timestamp
  and block number, then its queue-origin entries, as many as \<open>numSubsequentQueueTransactions\<close>.
  It does return when the payload holds all the bytes that its layout declares and the numbers
  fit, and the contexts are then those of the layout.
\<close>

theorem parseEvent_entry_order:
  "(parseEvent L event extraData = Inr res \<longrightarrow>
      (\<exists>cs. bindE (BigNumber_from_buffer
                     (buffer_slice (fromHexString L (ex_l1TransactionData extraData)) 12 15))
               toNumber = Inr (length cs) \<and>
            (\<forall>i < length cs.
               parseSequencerBatchContext (fromHexString L (ex_l1TransactionData extraData))
                 (15 + 16 * i) = Inr (cs ! i)) \<and>
            map (\<lambda>e. (te_queueOrigin e, te_timestamp e, te_blockNumber e))
              (out_transactionEntries res) = origin_plan cs)) \<and>
   (layout_decode (fromHexString L (ex_l1TransactionData extraData)) = Some (cs', raws) \<and>
    numbers_fit event extraData cs' \<longrightarrow>
      (\<exists>res'. parseEvent L event extraData = Inr res' \<and>
             map (\<lambda>e. (te_queueOrigin e, te_timestamp e, te_blockNumber e))
               (out_transactionEntries res') = origin_plan cs'))"
proof (intro conjI impI)
  let ?cd = "fromHexString L (ex_l1TransactionData extraData)"
  assume "parseEvent L event extraData = Inr res"
  note p = parseEvent_Inr [OF this]
  have len: "length (read_contexts ?cd) = read_numContexts ?cd"
    by (simp add: read_contexts_def)
  have nth: "read_contexts ?cd ! i = read_context ?cd i" if "i < read_numContexts ?cd" for i
    using that by (simp add: read_contexts_def)
  have plan: "map (\<lambda>e. (te_queueOrigin e, te_timestamp e, te_blockNumber e))
                (out_transactionEntries res) = origin_plan (read_contexts ?cd)"
    using p plan_assemble [of "read_contexts ?cd"
        "cursor_slices ?cd (15 + 16 * read_numContexts ?cd) (total_sequenced (read_contexts ?cd))"]
    by simp
  show "\<exists>cs. bindE (BigNumber_from_buffer (buffer_slice ?cd 12 15)) toNumber = Inr (length cs) \<and>
            (\<forall>i < length cs. parseSequencerBatchContext ?cd (15 + 16 * i) = Inr (cs ! i)) \<and>
            map (\<lambda>e. (te_queueOrigin e, te_timestamp e, te_blockNumber e))
              (out_transactionEntries res) = origin_plan cs"
    using p plan by (intro exI [of _ "read_contexts ?cd"]) (simp add: len nth)
next
  assume a: "layout_decode (fromHexString L (ex_l1TransactionData extraData)) = Some (cs', raws) \<and>
    numbers_fit event extraData cs'"
  then obtain res' where r: "parseEvent L event extraData = Inr res'"
    and e: "out_transactionEntries res' =
              assemble L (ev_startingQueueIndex event) extraData cs' 0 0 raws"
    using parseEvent_ok_entries by blast
  have "total_sequenced cs' \<le> length raws"
    using a layout_decode_length [of _ cs' raws] by auto
  from plan_assemble [OF this] r e
  show "\<exists>res'. parseEvent L event extraData = Inr res' \<and>
             map (\<lambda>e. (te_queueOrigin e, te_timestamp e, te_blockNumber e))
               (out_transactionEntries res') = origin_plan cs'"
    by simp
qed

theorem parseEvent_entry_order_witness:
  "parseEvent demo_lib (demo_event ''0xbb'' 7) (demo_extra demo_calldata 6) =
     Inr \<lparr> out_transactionBatchEntry = demo_batch_entry 6, out_transactionEntries = demo_entries \<rparr> \<and>
   layout_decode (fromHexString demo_lib (ex_l1TransactionData (demo_extra demo_calldata 6))) =
     Some (demo_contexts, demo_slices) \<and>
   numbers_fit (demo_event ''0xbb'' 7) (demo_extra demo_calldata 6) demo_contexts \<and>
   map (\<lambda>e. (te_queueOrigin e, te_timestamp e, te_blockNumber e)) demo_entries =
     [(''sequencer'', 100, 5), (''sequencer'', 100, 5), (''l1'', 0, 0),
      (''sequencer'', 101, 6), (''l1'', 0, 0), (''l1'', 0, 0)]"
proof -
  have l: "layout_decode (fromHexString demo_lib (ex_l1TransactionData (demo_extra demo_calldata 6))) =
             Some (demo_contexts, demo_slices)"
    using demo_layout_decode by (simp add: demo_extra_def)
  have n: "numbers_fit (demo_event ''0xbb'' 7) (demo_extra demo_calldata 6) demo_contexts"
    by (rule demo_numbers_fit) simp
  have p: "parseEvent demo_lib (demo_event ''0xbb'' 7) (demo_extra demo_calldata 6) =
     Inr \<lparr> out_transactionBatchEntry = demo_batch_entry 6, out_transactionEntries = demo_entries \<rparr>"
    by (rule demo_parseEvent) simp
  have o: "origin_plan demo_contexts =
     [(''sequencer'', 100, 5), (''sequencer'', 100, 5), (''l1'', 0, 0),
      (''sequencer'', 101, 6), (''l1'', 0, 0), (''l1'', 0, 0)]"
    by (simp add: origin_plan_def demo_contexts_def numeral_2_eq_2)
  from parseEvent_entry_order
         [of demo_lib "demo_event ''0xbb'' 7" "demo_extra demo_calldata 6"
             "\<lparr> out_transactionBatchEntry = demo_batch_entry 6,
                out_transactionEntries = demo_entries \<rparr>" demo_contexts demo_slices]
       l n
  have "map (\<lambda>e. (te_queueOrigin e, te_timestamp e, te_blockNumber e)) demo_entries =
          origin_plan demo_contexts"
    by (simp add: p)
  with l n p o show ?thesis
    by simp
qed






lemma queue_entries_of_result:
  assumes "parseEvent L event extraData = Inr res"
  shows "(\<forall>e \<in> set (out_transactionEntries res).
            te_queueOrigin e = ''l1'' \<longrightarrow>
              te_type e = Some ''EIP155'' \<and> te_decoded e = None \<and>
              te_blockNumber e = 0 \<and> te_timestamp e = 0 \<and>
              te_target e = ''0x0000000000000000000000000000000000000000'' \<and>
              te_origin e = Some ''0x0000000000000000000000000000000000000000'') \<and>
         (\<forall>i < length (out_transactionEntries res).
            te_queueOrigin (out_transactionEntries res ! i) = ''l1'' \<longrightarrow>
              te_queueIndex (out_transactionEntries res ! i) =
                Some (ev_startingQueueIndex event +
                      length (filter (\<lambda>e. te_queueOrigin e = ''l1'')
                                (take i (out_transactionEntries res))))) \<and>
         (\<forall>e \<in> set (out_transactionEntries res).
            te_queueOrigin e \<noteq> ''l1'' \<longrightarrow>
              te_queueOrigin e = ''sequencer'' \<and> te_queueIndex e = None) \<and>
         storeEvent res db =
           db @ [putTransactionBatchEntries [out_transactionBatchEntry res],
                 putTransactionEntries (out_transactionEntries res)]
              @ map (\<lambda>e. putTransactionIndexByQueueIndex (te_queueIndex e) (te_index e))
                  (filter (\<lambda>e. te_queueOrigin e = ''l1'') (out_transactionEntries res))"
proof -
  let ?es = "out_transactionEntries res"
  let ?l1 = "\<lambda>e. te_queueOrigin e = ''l1''"
  let ?q = "ev_startingQueueIndex event"
  obtain cs sl where es: "?es = assemble L ?q extraData cs 0 0 sl"
    using parseEvent_Inr [OF assms] by blast
  have kinds: "(\<exists>c i s. e = sequencer_entry L extraData c i s) \<or>
               (\<exists>i k. e = provisional_entry extraData i k)" if "e \<in> set ?es" for e
    using that assemble_cases [of e L ?q extraData cs 0 0 sl] by (simp add: es)
  have a: "\<forall>e \<in> set ?es. ?l1 e \<longrightarrow>
              te_type e = Some ''EIP155'' \<and> te_decoded e = None \<and>
              te_blockNumber e = 0 \<and> te_timestamp e = 0 \<and>
              te_target e = ''0x0000000000000000000000000000000000000000'' \<and>
              te_origin e = Some ''0x0000000000000000000000000000000000000000''"
  proof (intro ballI impI)
    fix e assume "e \<in> set ?es" and l1: "?l1 e"
    from kinds [OF this(1)] l1 obtain i k where "e = provisional_entry extraData i k"
      by (auto simp: sequencer_entry_def)
    then show "te_type e = Some ''EIP155'' \<and> te_decoded e = None \<and>
              te_blockNumber e = 0 \<and> te_timestamp e = 0 \<and>
              te_target e = ''0x0000000000000000000000000000000000000000'' \<and>
              te_origin e = Some ''0x0000000000000000000000000000000000000000''"
      by (simp add: provisional_entry_def)
  qed
  have qi: "map te_queueIndex (filter ?l1 ?es) = map Some [?q ..< ?q + length (filter ?l1 ?es)]"
    using queueIndex_assemble [of L ?q extraData cs 0 0 sl]
      length_filter_l1_assemble [of L ?q extraData cs 0 0 sl]
    by (simp add: es)
  have b: "\<forall>i < length ?es. ?l1 (?es ! i) \<longrightarrow>
             te_queueIndex (?es ! i) = Some (?q + length (filter ?l1 (take i ?es)))"
  proof (intro allI impI)
    fix i assume i: "i < length ?es" and l1: "?l1 (?es ! i)"
    let ?k = "length (filter ?l1 (take i ?es))"
    from nth_of_filter_position [of i ?es ?l1, OF i l1]
    have nth: "filter ?l1 ?es ! ?k = ?es ! i" and k: "?k < length (filter ?l1 ?es)"
      by simp_all
    have "te_queueIndex (?es ! i) = map te_queueIndex (filter ?l1 ?es) ! ?k"
      using k by (simp add: nth)
    also have "\<dots> = Some (?q + ?k)"
      using k by (simp only: qi) simp
    finally show "te_queueIndex (?es ! i) = Some (?q + ?k)" .
  qed
  have c: "\<forall>e \<in> set ?es. \<not> ?l1 e \<longrightarrow> te_queueOrigin e = ''sequencer'' \<and> te_queueIndex e = None"
  proof (intro ballI impI)
    fix e assume "e \<in> set ?es" and n: "\<not> ?l1 e"
    from kinds [OF this(1)] n obtain c i s where "e = sequencer_entry L extraData c i s"
      by (auto simp: provisional_entry_def)
    then show "te_queueOrigin e = ''sequencer'' \<and> te_queueIndex e = None"
      by (simp add: sequencer_entry_def)
  qed
  have d: "storeEvent res db =
           db @ [putTransactionBatchEntries [out_transactionBatchEntry res],
                 putTransactionEntries ?es]
              @ map (\<lambda>e. putTransactionIndexByQueueIndex (te_queueIndex e) (te_index e))
                  (filter ?l1 ?es)"
    by (simp add: storeEvent_def store_loop_eq)
  from a b c d show ?thesis
    by blast
qed

text \<open>
  C9: whenever \<^verbatim>\<open>parseEvent\<close> returns, on any input, every queue-origin entry has type
  \<^verbatim>\<open>'EIP155'\<close>, no decoded payload, block number 0, timestamp 0 and zero-filled target and
  origin, and its queue index is the starting queue index plus the number of queue-origin entries
  before it; every other entry is sequencer-origin and has no queue index; \<^verbatim>\<open>storeEvent\<close> stores
  the batch entry and the entries, and then records the pair of queue index and index for exactly
  the queue-origin entries, in order. \<^verbatim>\<open>parseEvent\<close> does return when the payload holds all the
  bytes that its layout declares and the numbers fit, and the queue indices of its queue-origin
  entries are then the starting queue index and its successors, as many as the contexts declare.
\<close>

theorem parseEvent_queue_entries:
  "(parseEvent L event extraData = Inr res \<longrightarrow>
      (\<forall>e \<in> set (out_transactionEntries res).
          te_queueOrigin e = ''l1'' \<longrightarrow>
            te_type e = Some ''EIP155'' \<and> te_decoded e = None \<and>
            te_blockNumber e = 0 \<and> te_timestamp e = 0 \<and>
            te_target e = ''0x0000000000000000000000000000000000000000'' \<and>
            te_origin e = Some ''0x0000000000000000000000000000000000000000'') \<and>
      (\<forall>i < length (out_transactionEntries res).
          te_queueOrigin (out_transactionEntries res ! i) = ''l1'' \<longrightarrow>
            te_queueIndex (out_transactionEntries res ! i) =
              Some (ev_startingQueueIndex event +
                    length (filter (\<lambda>e. te_queueOrigin e = ''l1'')
                              (take i (out_transactionEntries res))))) \<and>
      (\<forall>e \<in> set (out_transactionEntries res).
          te_queueOrigin e \<noteq> ''l1'' \<longrightarrow>
            te_queueOrigin e = ''sequencer'' \<and> te_queueIndex e = None) \<and>
      storeEvent res db =
        db @ [putTransactionBatchEntries [out_transactionBatchEntry res],
              putTransactionEntries (out_transactionEntries res)]
           @ map (\<lambda>e. putTransactionIndexByQueueIndex (te_queueIndex e) (te_index e))
               (filter (\<lambda>e. te_queueOrigin e = ''l1'') (out_transactionEntries res))) \<and>
   (layout_decode (fromHexString L (ex_l1TransactionData extraData)) = Some (cs, raws) \<and>
    numbers_fit event extraData cs \<longrightarrow>
      (\<exists>res'. parseEvent L event extraData = Inr res' \<and>
             map te_queueIndex
               (filter (\<lambda>e. te_queueOrigin e = ''l1'') (out_transactionEntries res')) =
             map Some [ev_startingQueueIndex event ..<
                         ev_startingQueueIndex event + total_queued cs]))"
proof (intro conjI impI)
  assume a: "layout_decode (fromHexString L (ex_l1TransactionData extraData)) = Some (cs, raws) \<and>
    numbers_fit event extraData cs"
  then obtain res' where r: "parseEvent L event extraData = Inr res'"
    and e: "out_transactionEntries res' =
              assemble L (ev_startingQueueIndex event) extraData cs 0 0 raws"
    using parseEvent_ok_entries by blast
  from queueIndex_assemble [of L "ev_startingQueueIndex event" extraData cs 0 0 raws] r e
  show "\<exists>res'. parseEvent L event extraData = Inr res' \<and>
             map te_queueIndex
               (filter (\<lambda>e. te_queueOrigin e = ''l1'') (out_transactionEntries res')) =
             map Some [ev_startingQueueIndex event ..<
                         ev_startingQueueIndex event + total_queued cs]"
    by simp
qed (use queue_entries_of_result [of L event extraData res db] in blast)+

theorem parseEvent_queue_entries_witness:
  "parseEvent demo_lib (demo_event ''0xbb'' 7) (demo_extra demo_calldata 6) =
     Inr \<lparr> out_transactionBatchEntry = demo_batch_entry 6, out_transactionEntries = demo_entries \<rparr> \<and>
   layout_decode (fromHexString demo_lib (ex_l1TransactionData (demo_extra demo_calldata 6))) =
     Some (demo_contexts, demo_slices) \<and>
   numbers_fit (demo_event ''0xbb'' 7) (demo_extra demo_calldata 6) demo_contexts \<and>
   map te_queueOrigin demo_entries =
     [''sequencer'', ''sequencer'', ''l1'', ''sequencer'', ''l1'', ''l1''] \<and>
   map te_queueIndex demo_entries = [None, None, Some 3, None, Some 4, Some 5] \<and>
   map (\<lambda>e. (te_type e, te_decoded e, te_blockNumber e, te_timestamp e))
     (filter (\<lambda>e. te_queueOrigin e = ''l1'') demo_entries) =
     [(Some ''EIP155'', None, 0, 0), (Some ''EIP155'', None, 0, 0), (Some ''EIP155'', None, 0, 0)] \<and>
   storeEvent \<lparr> out_transactionBatchEntry = demo_batch_entry 6,
                out_transactionEntries = demo_entries \<rparr> [] =
     [putTransactionBatchEntries [demo_batch_entry 6], putTransactionEntries demo_entries,
      putTransactionIndexByQueueIndex (Some 3) 12,
      putTransactionIndexByQueueIndex (Some 4) 14,
      putTransactionIndexByQueueIndex (Some 5) 15]"
proof -
  have l: "layout_decode (fromHexString demo_lib (ex_l1TransactionData (demo_extra demo_calldata 6))) =
             Some (demo_contexts, demo_slices)"
    using demo_layout_decode by (simp add: demo_extra_def)
  have n: "numbers_fit (demo_event ''0xbb'' 7) (demo_extra demo_calldata 6) demo_contexts"
    by (rule demo_numbers_fit) simp
  have p: "parseEvent demo_lib (demo_event ''0xbb'' 7) (demo_extra demo_calldata 6) =
     Inr \<lparr> out_transactionBatchEntry = demo_batch_entry 6, out_transactionEntries = demo_entries \<rparr>"
    by (rule demo_parseEvent) simp
  have o: "map te_queueOrigin demo_entries =
             [''sequencer'', ''sequencer'', ''l1'', ''sequencer'', ''l1'', ''l1'']"
    and q: "map te_queueIndex demo_entries = [None, None, Some 3, None, Some 4, Some 5]"
    and i: "map te_index (filter (\<lambda>e. te_queueOrigin e = ''l1'') demo_entries) = [12, 14, 15]"
    and qi: "map te_queueIndex (filter (\<lambda>e. te_queueOrigin e = ''l1'') demo_entries) =
               [Some 3, Some 4, Some 5]"
    and f: "filter (\<lambda>e. te_queueOrigin e = ''l1'') demo_entries =
              [demo_queue_entry 12 3, demo_queue_entry 14 4, demo_queue_entry 15 5]"
    by (simp_all add: demo_entries_def demo_sequencer_entry_def demo_queue_entry_def)
  have v: "te_queueIndex (demo_queue_entry a b) = Some b" "te_index (demo_queue_entry a b) = a"
    for a b
    by (simp_all add: demo_queue_entry_def)
  note t = parseEvent_queue_entries
             [of demo_lib "demo_event ''0xbb'' 7" "demo_extra demo_calldata 6"
                 "\<lparr> out_transactionBatchEntry = demo_batch_entry 6,
                    out_transactionEntries = demo_entries \<rparr>" "[]" demo_contexts demo_slices]
  from t p have "\<forall>e \<in> set demo_entries. te_queueOrigin e = ''l1'' \<longrightarrow>
      te_type e = Some ''EIP155'' \<and> te_decoded e = None \<and> te_blockNumber e = 0 \<and>
      te_timestamp e = 0"
    by simp
  then have "\<forall>e \<in> set (filter (\<lambda>e. te_queueOrigin e = ''l1'') demo_entries).
      (te_type e, te_decoded e, te_blockNumber e, te_timestamp e) = (Some ''EIP155'', None, 0, 0)"
    by simp
  then have a: "map (\<lambda>e. (te_type e, te_decoded e, te_blockNumber e, te_timestamp e))
     (filter (\<lambda>e. te_queueOrigin e = ''l1'') demo_entries) =
     [(Some ''EIP155'', None, 0, 0), (Some ''EIP155'', None, 0, 0), (Some ''EIP155'', None, 0, 0)]"
    unfolding f by simp
  from t p have s: "storeEvent \<lparr> out_transactionBatchEntry = demo_batch_entry 6,
                out_transactionEntries = demo_entries \<rparr> [] =
     [putTransactionBatchEntries [demo_batch_entry 6], putTransactionEntries demo_entries,
      putTransactionIndexByQueueIndex (Some 3) 12,
      putTransactionIndexByQueueIndex (Some 4) 14,
      putTransactionIndexByQueueIndex (Some 5) 15]"
    by (simp add: f v)
  from l n p o q a s show ?thesis
    by simp
qed

text \<open>
  C5 (as amended): when the length prefix of a slice starts inside the payload and the declared
  length exceeds the bytes that remain after the prefix, \<^verbatim>\<open>parseSequencerBatchTransaction\<close>
  returns those remaining bytes and raises nothing, and a read at the cursor advanced past that
  slice fails; a read whose length prefix starts at or after the end of the payload fails.
  Whenever \<^verbatim>\<open>parseEvent\<close> returns, no slice that it has read, the last one apart, declares more
  bytes than remain.
\<close>

theorem parseSequencerBatchTransaction_truncates:
  "(offset < length calldata \<and> overruns calldata offset \<longrightarrow>
      parseSequencerBatchTransaction calldata offset = Inr (drop (offset + 3) calldata) \<and>
      parseSequencerBatchTransaction calldata
        (offset + (3 + length (drop (offset + 3) calldata))) = Inl InvalidBigNumber) \<and>
   (length calldata \<le> offset \<longrightarrow>
      parseSequencerBatchTransaction calldata offset = Inl InvalidBigNumber) \<and>
   (parseEvent L event extraData = Inr res \<longrightarrow>
      (\<forall>j. Suc j < length (filter (\<lambda>e. te_queueOrigin e = ''sequencer'')
                             (out_transactionEntries res)) \<longrightarrow>
         \<not> overruns (fromHexString L (ex_l1TransactionData extraData))
             (cursor_after (fromHexString L (ex_l1TransactionData extraData))
                (15 + 16 * read_numContexts (fromHexString L (ex_l1TransactionData extraData)))
                j)))"
proof (intro conjI impI allI)
  assume h: "offset < length calldata \<and> overruns calldata offset"
  then have "bytes_at calldata (offset + 3) (offset + 3 + be_uint (bytes_at calldata offset (offset + 3)))
               = drop (offset + 3) calldata"
    by (simp add: bytes_at_def overruns_def)
  with h show "parseSequencerBatchTransaction calldata offset = Inr (drop (offset + 3) calldata)"
    by (simp add: parseSequencerBatchTransaction_in_range)
  show "parseSequencerBatchTransaction calldata
          (offset + (3 + length (drop (offset + 3) calldata))) = Inl InvalidBigNumber"
    by (rule parseSequencerBatchTransaction_past_end) simp
next
  assume "length calldata \<le> offset"
  then show "parseSequencerBatchTransaction calldata offset = Inl InvalidBigNumber"
    by (rule parseSequencerBatchTransaction_past_end)
next
  fix j
  let ?cd = "fromHexString L (ex_l1TransactionData extraData)"
  let ?k = "total_sequenced (read_contexts ?cd)"
  assume r: "parseEvent L event extraData = Inr res"
    and j: "Suc j < length (filter (\<lambda>e. te_queueOrigin e = ''sequencer'')
                              (out_transactionEntries res))"
  from parseEvent_Inr [OF r] have
    e: "out_transactionEntries res =
          assemble L (ev_startingQueueIndex event) extraData (read_contexts ?cd) 0 0
            (cursor_slices ?cd (15 + 16 * read_numContexts ?cd) ?k)"
    and ok: "reads_ok ?cd (15 + 16 * read_numContexts ?cd) ?k"
    by simp_all
  have "length (filter (\<lambda>e. te_queueOrigin e = ''sequencer'') (out_transactionEntries res)) = ?k"
    unfolding e by (rule length_filter_seq_assemble) simp
  with j have "Suc j < ?k"
    by simp
  from reads_ok_not_overrun [OF ok this]
  show "\<not> overruns ?cd (cursor_after ?cd (15 + 16 * read_numContexts ?cd) j)" .
qed

lemma demo_overrun_bytes:
  "fromHexString demo_lib demo_overrun_calldata =
     [0,0,0,0,0,0,0,0,0,0,0,0, 0,0,1, 0,0,2, 0,0,0, 0,0,0,0,100, 0,0,0,0,5, 0,0,5, 9,7]"
  by (simp add: demo_lib_def demo_overrun_calldata_def hex_value_simps)

lemma demo_overrun_parseEvent:
  "parseEvent demo_lib (demo_event ''0xbb'' 7) (demo_extra demo_overrun_calldata 2) =
     Inl InvalidBigNumber"
  by (simp add: parseEvent_unfold demo_overrun_bytes)

theorem parseSequencerBatchTransaction_truncates_witness:
  "((31::nat) < length (fromHexString demo_lib demo_truncated_calldata) \<and>
    overruns (fromHexString demo_lib demo_truncated_calldata) 31) \<and>
   parseSequencerBatchTransaction (fromHexString demo_lib demo_truncated_calldata) 31 = Inr [9, 7] \<and>
   length (fromHexString demo_lib demo_truncated_calldata) \<le> 36 \<and>
   parseSequencerBatchTransaction (fromHexString demo_lib demo_truncated_calldata) 36
     = Inl InvalidBigNumber \<and>
   parseEvent demo_lib (demo_event ''0xbb'' 7) (demo_extra demo_calldata 6) =
     Inr \<lparr> out_transactionBatchEntry = demo_batch_entry 6, out_transactionEntries = demo_entries \<rparr> \<and>
   length (filter (\<lambda>e. te_queueOrigin e = ''sequencer'') demo_entries) = 3 \<and>
   \<not> overruns (fromHexString demo_lib demo_calldata) 47 \<and>
   \<not> overruns (fromHexString demo_lib demo_calldata) 52 \<and>
   overruns (fromHexString demo_lib demo_overrun_calldata) 31 \<and>
   parseEvent demo_lib (demo_event ''0xbb'' 7) (demo_extra demo_overrun_calldata 2) =
     Inl InvalidBigNumber"
proof -
  have h: "(31::nat) < length (fromHexString demo_lib demo_truncated_calldata) \<and>
    overruns (fromHexString demo_lib demo_truncated_calldata) 31"
    by (simp add: demo_truncated_bytes overruns_def bytes_at_def be_uint_eval)
  have l: "length (fromHexString demo_lib demo_truncated_calldata) \<le> 36"
    by (simp add: demo_truncated_bytes)
  have p: "parseEvent demo_lib (demo_event ''0xbb'' 7) (demo_extra demo_calldata 6) =
     Inr \<lparr> out_transactionBatchEntry = demo_batch_entry 6, out_transactionEntries = demo_entries \<rparr>"
    by (rule demo_parseEvent) simp
  have n: "length (filter (\<lambda>e. te_queueOrigin e = ''sequencer'') demo_entries) = 3"
    by (simp add: demo_entries_def demo_sequencer_entry_def demo_queue_entry_def)
  have cd: "fromHexString demo_lib (ex_l1TransactionData (demo_extra demo_calldata 6)) =
              fromHexString demo_lib demo_calldata"
    by (simp add: demo_extra_def)
  have c: "read_numContexts (fromHexString demo_lib demo_calldata) = 2"
    "cursor_after (fromHexString demo_lib demo_calldata) 47 0 = 47"
    "cursor_after (fromHexString demo_lib demo_calldata) 47 (Suc 0) = 52"
    by (simp_all add: read_numContexts_def demo_calldata_bytes bytes_at_def be_uint_eval)
  have o: "overruns (fromHexString demo_lib demo_overrun_calldata) 31"
    by (simp add: demo_overrun_bytes overruns_def bytes_at_def be_uint_eval)
  note t = parseSequencerBatchTransaction_truncates
             [of _ _ demo_lib "demo_event ''0xbb'' 7" "demo_extra demo_calldata 6"
                 "\<lparr> out_transactionBatchEntry = demo_batch_entry 6,
                    out_transactionEntries = demo_entries \<rparr>"]
  from t [of 0 "[]"] p have
    a: "\<forall>j. Suc j < 3 \<longrightarrow>
          \<not> overruns (fromHexString demo_lib demo_calldata)
              (cursor_after (fromHexString demo_lib demo_calldata) 47 j)"
    by (simp add: n cd c(1))
  have b: "\<not> overruns (fromHexString demo_lib demo_calldata) 47"
    "\<not> overruns (fromHexString demo_lib demo_calldata) 52"
    using a [rule_format, of 0] a [rule_format, of "Suc 0"]
    unfolding c by simp_all
  from parseSequencerBatchTransaction_truncates
         [of 31 "fromHexString demo_lib demo_truncated_calldata"]
       parseSequencerBatchTransaction_truncates
         [of 36 "fromHexString demo_lib demo_truncated_calldata"] h l
  have s: "parseSequencerBatchTransaction (fromHexString demo_lib demo_truncated_calldata) 31 =
             Inr [9, 7]"
    "parseSequencerBatchTransaction (fromHexString demo_lib demo_truncated_calldata) 36 =
       Inl InvalidBigNumber"
    by (simp_all add: demo_truncated_bytes)
  from h l p n b o s demo_overrun_parseEvent show ?thesis
    by simp
qed

text \<open>
  C5 as stated fails: in this payload the only slice declares 5 bytes where 2 remain, so that by
  the layout the payload does not decode, and \<^verbatim>\<open>parseEvent\<close> returns an entry whose data is the
  2 remaining bytes.
\<close>

theorem parseEvent_truncated_slice_counterexample:
  "length (fromHexString demo_lib (ex_l1TransactionData (demo_extra demo_truncated_calldata 1))) - 34
     = 2 \<and>
   be_uint (bytes_at (fromHexString demo_lib
                        (ex_l1TransactionData (demo_extra demo_truncated_calldata 1))) 31 34) = 5 \<and>
   layout_decode (fromHexString demo_lib
                    (ex_l1TransactionData (demo_extra demo_truncated_calldata 1))) = None \<and>
   parseEvent demo_lib (demo_event ''0xbb'' 7) (demo_extra demo_truncated_calldata 1) =
     Inr \<lparr> out_transactionBatchEntry = demo_batch_entry 1,
           out_transactionEntries = [demo_sequencer_entry 10 100 5 ''0x0907'' None] \<rparr>"
proof -
  have b: "fromHexString demo_lib (ex_l1TransactionData (demo_extra demo_truncated_calldata 1)) =
             fromHexString demo_lib demo_truncated_calldata"
    by (simp add: demo_extra_def)
  have "length (fromHexString demo_lib demo_truncated_calldata) - 34 = 2"
    and "be_uint (bytes_at (fromHexString demo_lib demo_truncated_calldata) 31 34) = 5"
    by (simp_all add: demo_truncated_bytes bytes_at_def be_uint_eval)
  with demo_truncated_layout_decode demo_truncated_parseEvent show ?thesis
    unfolding b by simp
qed

end
